theory Spec2Isabelle
  imports Main "HOL-Library.Word" "HOL-Library.Sublist"
begin

section \<open>The streaming, deduplicating reader of \<open>src/server/nextjs/src/route.ts\<close>\<close>

subsection \<open>JavaScript strings and JSON values\<close>

text \<open>
  A JavaScript string is a sequence of UTF-16 code units; \<open>lit\<close> turns an ASCII
  literal of the source into such a sequence.
\<close>

type_synonym code_unit = "16 word"
type_synonym js_string = "code_unit list"

definition lit :: "string \<Rightarrow> js_string" where
  "lit cs = map (\<lambda>c. of_char c) cs"

text \<open>
  The values \<open>JSON.parse\<close> can return. The type \<open>'n\<close> stands for the Number values;
  an object is the list of its own properties (\<open>map_of\<close> reads a property).
\<close>

datatype 'n json =
    JNull
  | JBool bool
  | JNum 'n
  | JStr js_string
  | JArr "'n json list"
  | JObj "(js_string \<times> 'n json) list"

text \<open>The two exceptions that can be raised inside the \<open>try\<close> block.\<close>

datatype js_error = SyntaxError | TypeError

subsection \<open>The JavaScript operations the loop body uses\<close>

text \<open>
  \<open>String.prototype.trim\<close> removes leading and trailing WhiteSpace and LineTerminator
  code points (ECMAScript: TAB, VT, FF, SP, NBSP, ZWNBSP, the other space separators,
  LF, CR, LS, PS).
\<close>

definition is_white_space :: "code_unit \<Rightarrow> bool" where
  "is_white_space c \<longleftrightarrow>
     c \<in> {0x9, 0xA, 0xB, 0xC, 0xD, 0x20, 0xA0, 0x1680, 0x2028, 0x2029, 0x202F,
          0x205F, 0x3000, 0xFEFF}
     \<or> (0x2000 \<le> c \<and> c \<le> 0x200A)"

definition trim :: "js_string \<Rightarrow> js_string" where
  "trim line = rev (dropWhile is_white_space (rev (dropWhile is_white_space line)))"

text \<open>
  The property reads \<open>obj.s\<close> and \<open>obj.o\<close>: on \<open>null\<close> the read throws a TypeError; on
  an object it yields the own property, or \<open>undefined\<close> (\<open>None\<close>) when there is none;
  on a boolean, a number, a string or an array it yields \<open>undefined\<close>, since neither
  their prototypes nor their index and length properties are named \<open>s\<close> or \<open>o\<close>.
\<close>

fun get_prop :: "'n json \<Rightarrow> js_string \<Rightarrow> js_error + 'n json option" where
  "get_prop JNull name = Inl TypeError"
| "get_prop (JObj kvs) name = Inr (map_of kvs name)"
| "get_prop v name = Inr None"

text \<open>
  The string that \<open>v + "::"\<close> and \<open>"..." + v\<close> concatenate for a value \<open>v\<close>, that is
  ToString (ToPrimitive \<open>v\<close>); \<open>ns\<close> is Number::toString.
  An array is joined with commas, \<open>null\<close> elements giving the empty string.
  A plain object gives \<open>[object Object]\<close>, unless it has an own property \<open>toString\<close>:
  that property holds a JSON value, which is not callable, and \<open>valueOf\<close> returns the
  object itself, so the conversion throws a TypeError.
\<close>

fun to_str :: "('n \<Rightarrow> js_string) \<Rightarrow> 'n json \<Rightarrow> js_error + js_string"
  and join_elems :: "('n \<Rightarrow> js_string) \<Rightarrow> 'n json list \<Rightarrow> js_error + js_string"
where
  "to_str ns JNull = Inr (lit ''null'')"
| "to_str ns (JBool b) = Inr (lit (if b then ''true'' else ''false''))"
| "to_str ns (JNum n) = Inr (ns n)"
| "to_str ns (JStr s) = Inr s"
| "to_str ns (JArr vs) = join_elems ns vs"
| "to_str ns (JObj kvs) =
     (case map_of kvs (lit ''toString'') of
        Some f \<Rightarrow> Inl TypeError
      | None \<Rightarrow> Inr (lit ''[object Object]''))"
| "join_elems ns [] = Inr []"
| "join_elems ns (v # vs) =
     (case (if v = JNull then Inr [] else to_str ns v) of
        Inl e \<Rightarrow> Inl e
      | Inr a \<Rightarrow>
          (if vs = [] then Inr a
           else (case join_elems ns vs of
                   Inl e \<Rightarrow> Inl e
                 | Inr b \<Rightarrow> Inr (a @ lit '','' @ b))))"

definition to_str_undef :: "('n \<Rightarrow> js_string) \<Rightarrow> 'n json option \<Rightarrow> js_error + js_string" where
  "to_str_undef ns p = (case p of None \<Rightarrow> Inr (lit ''undefined'') | Some v \<Rightarrow> to_str ns v)"

text \<open>Line 17: \<open>const mangled = obj.s + "::" + obj.o\<close>.\<close>

definition mangled :: "('n \<Rightarrow> js_string) \<Rightarrow> 'n json \<Rightarrow> js_error + js_string" where
  "mangled ns obj =
     (case get_prop obj (lit ''s'') of
        Inl e \<Rightarrow> Inl e
      | Inr s \<Rightarrow>
          (case to_str_undef ns s of
             Inl e \<Rightarrow> Inl e
           | Inr a \<Rightarrow>
               (case get_prop obj (lit ''o'') of
                  Inl e \<Rightarrow> Inl e
                | Inr o' \<Rightarrow>
                    (case to_str_undef ns o' of
                       Inl e \<Rightarrow> Inl e
                     | Inr b \<Rightarrow> Inr (a @ lit ''::'' @ b)))))"

subsection \<open>The reader\<close>

text \<open>
  The state of one call: the Set \<open>set\<close>, the array \<open>jsonObjects\<close>, and what
  \<open>console.error\<close> has been called with (the message and the error object).
\<close>

record 'n reader_state =
  set_seen :: "js_string set"
  jsonObjects :: "'n json list"
  console_error :: "(js_string \<times> js_error) list"

definition initial_state :: "'n reader_state" where
  "initial_state = \<lparr>set_seen = {}, jsonObjects = [], console_error = []\<rparr>"

text \<open>
  Lines 14 to 27, the body of the loop for one \<open>line\<close>. \<open>parse\<close> is \<open>JSON.parse\<close>,
  with \<open>None\<close> for a thrown SyntaxError.
\<close>

definition loop_body ::
  "(js_string \<Rightarrow> 'n json option) \<Rightarrow> ('n \<Rightarrow> js_string) \<Rightarrow>
   'n reader_state \<Rightarrow> js_string \<Rightarrow> 'n reader_state" where
  "loop_body parse ns st line =
     (if trim line \<noteq> [] then
        (case parse line of
           None \<Rightarrow>
             st\<lparr>console_error := console_error st @
                  [(lit ''Error parsing line as JSON: '' @ line, SyntaxError)]\<rparr>
         | Some obj \<Rightarrow>
             (case mangled ns obj of
                Inl error \<Rightarrow>
                  st\<lparr>console_error := console_error st @
                       [(lit ''Error parsing line as JSON: '' @ line, error)]\<rparr>
              | Inr m \<Rightarrow>
                  (if m \<in> set_seen st then st
                   else st\<lparr>set_seen := insert m (set_seen st),
                           jsonObjects := jsonObjects st @ [obj]\<rparr>)))
      else st)"

text \<open>Lines 6 to 29: the loop over the lines \<open>rl\<close> delivers, from the empty state.\<close>

definition run ::
  "(js_string \<Rightarrow> 'n json option) \<Rightarrow> ('n \<Rightarrow> js_string) \<Rightarrow> js_string list \<Rightarrow> 'n reader_state" where
  "run parse ns rl = fold (\<lambda>line st. loop_body parse ns st line) rl initial_state"

definition readJsonFileLineByLine ::
  "(js_string \<Rightarrow> 'n json option) \<Rightarrow> ('n \<Rightarrow> js_string) \<Rightarrow> js_string list \<Rightarrow> 'n json list" where
  "readJsonFileLineByLine parse ns rl = jsonObjects (run parse ns rl)"

definition diagnostics ::
  "(js_string \<Rightarrow> 'n json option) \<Rightarrow> ('n \<Rightarrow> js_string) \<Rightarrow> js_string list \<Rightarrow>
   (js_string \<times> js_error) list" where
  "diagnostics parse ns rl = console_error (run parse ns rl)"

text \<open>What one line adds to the calls of \<open>console.error\<close>, whatever the state.\<close>

definition line_diagnostic ::
  "(js_string \<Rightarrow> 'n json option) \<Rightarrow> ('n \<Rightarrow> js_string) \<Rightarrow> js_string \<Rightarrow>
   (js_string \<times> js_error) list" where
  "line_diagnostic parse ns line =
     (if trim line = [] then []
      else (case parse line of
              None \<Rightarrow> [(lit ''Error parsing line as JSON: '' @ line, SyntaxError)]
            | Some obj \<Rightarrow>
                (case mangled ns obj of
                   Inl e \<Rightarrow> [(lit ''Error parsing line as JSON: '' @ line, e)]
                 | Inr m \<Rightarrow> [])))"

subsection \<open>The call, with the stream that may fail\<close>

text \<open>
  What the loop \<open>for await (const line of rl)\<close> iterates over: the lines of the file one
  after the other, and then either the end of the stream or an error thrown out of the
  iteration. A file that cannot be opened is the stream that fails before its first
  line: \<open>createReadStream\<close> reports the failed open as an error of the stream, and
  the iterator of \<open>rl\<close> throws it.
\<close>

datatype 'e line_stream = End | Fail 'e | Line js_string "'e line_stream"

text \<open>
  The loop on such a stream. The \<open>try\<close> block is inside the loop body and encloses
  only the decoding and the key: an error of the stream is not caught, it ends the loop
  and the call, and the state reached is not returned.
\<close>

fun for_await ::
  "(js_string \<Rightarrow> 'n json option) \<Rightarrow> ('n \<Rightarrow> js_string) \<Rightarrow>
   'n reader_state \<Rightarrow> 'e line_stream \<Rightarrow> 'e + 'n reader_state" where
  "for_await parse ns st End = Inr st"
| "for_await parse ns st (Fail e) = Inl e"
| "for_await parse ns st (Line line rl) = for_await parse ns (loop_body parse ns st line) rl"

text \<open>
  The outcome of the call \<open>readJsonFileLineByLine(filePath)\<close>: a rejection with the
  error, or the array returned. \<open>lines_of\<close> gives the stream of lines of a path (lines
  8 to 12).
\<close>

definition readJsonFileLineByLine_call ::
  "(js_string \<Rightarrow> 'n json option) \<Rightarrow> ('n \<Rightarrow> js_string) \<Rightarrow> ('p \<Rightarrow> 'e line_stream) \<Rightarrow> 'p \<Rightarrow>
   'e + 'n json list" where
  "readJsonFileLineByLine_call parse ns lines_of filePath =
     (case for_await parse ns initial_state (lines_of filePath) of
        Inl e \<Rightarrow> Inl e
      | Inr st \<Rightarrow> Inr (jsonObjects st))"

text \<open>The stream that delivers the lines \<open>ls\<close> and goes on as \<open>s\<close>.\<close>

fun delivering :: "js_string list \<Rightarrow> 'e line_stream \<Rightarrow> 'e line_stream" where
  "delivering [] s = s"
| "delivering (line # ls) s = Line line (delivering ls s)"

subsection \<open>The notions the specification is stated in\<close>

text \<open>
  The record a line contributes and its key, following the specification's words: a
  line that is not blank, decodes as JSON and has a key. Other lines contribute nothing.
\<close>

definition line_record ::
  "(js_string \<Rightarrow> 'n json option) \<Rightarrow> ('n \<Rightarrow> js_string) \<Rightarrow> js_string \<Rightarrow>
   (js_string \<times> 'n json) option" where
  "line_record parse ns line =
     (if trim line = [] then None
      else (case parse line of
              None \<Rightarrow> None
            | Some obj \<Rightarrow> (case mangled ns obj of Inl e \<Rightarrow> None | Inr m \<Rightarrow> Some (m, obj))))"

definition valid_records ::
  "(js_string \<Rightarrow> 'n json option) \<Rightarrow> ('n \<Rightarrow> js_string) \<Rightarrow> js_string list \<Rightarrow>
   (js_string \<times> 'n json) list" where
  "valid_records parse ns rl = List.map_filter (line_record parse ns) rl"

text \<open>
  The first occurrences of the keys of a keyed sequence, in their order: the entries
  whose key is not the key of an earlier entry.
\<close>

definition first_occurrences :: "('k \<times> 'a) list \<Rightarrow> ('k \<times> 'a) list" where
  "first_occurrences xs =
     map (\<lambda>i. xs ! i)
       (filter (\<lambda>i. \<forall>j \<in> set [0..<i]. fst (xs ! j) \<noteq> fst (xs ! i)) [0..<length xs])"

text \<open>A value that has neither an \<open>s\<close> nor an \<open>o\<close> field to read.\<close>

definition lacks_both :: "'n json \<Rightarrow> bool" where
  "lacks_both obj \<longleftrightarrow> get_prop obj (lit ''s'') = Inr None \<and> get_prop obj (lit ''o'') = Inr None"

text \<open>Whether a value is a JSON object (not an array, not \<open>null\<close>).\<close>

fun is_object :: "'n json \<Rightarrow> bool" where
  "is_object (JObj kvs) = True"
| "is_object v = False"

subsection \<open>Line splitting\<close>

definition LF :: code_unit where
  "LF = 0xA"

definition CR :: code_unit where
  "CR = 0xD"

text \<open>
  Modelled from the spec: the line splitting of \<open>createInterface\<close> (Node's readline
  module, not part of this repository), as section 4.1 step 2 words it: a line ends at
  a bare line feed or at a carriage return followed by a line feed, both alike.
  \<open>cur\<close> is the line collected so far; text after the last terminator is a last line.
\<close>

fun split_lines :: "js_string \<Rightarrow> js_string \<Rightarrow> js_string list" where
  "split_lines cur [] = (if cur = [] then [] else [cur])"
| "split_lines cur (c # cs) =
     (if c = LF then cur # split_lines [] cs
      else if c = CR \<and> cs \<noteq> [] \<and> hd cs = LF then cur # split_lines [] (tl cs)
      else split_lines (cur @ [c]) cs)"

definition createInterface :: "js_string \<Rightarrow> js_string list" where
  "createInterface text = split_lines [] text"

text \<open>A text made of the given lines, each followed by the terminator \<open>eol\<close>.\<close>

definition terminate_lines :: "js_string \<Rightarrow> js_string list \<Rightarrow> js_string" where
  "terminate_lines eol ls = concat (map (\<lambda>l. l @ eol) ls)"

subsection \<open>Instances of the parameters, for running the reader on concrete lines\<close>

text \<open>
  Number::toString on integers: the decimal numeral, with a minus sign below zero
  (what ECMAScript gives for integer Number values of magnitude below \<open>10^21\<close>).
\<close>

function decimal_nat :: "nat \<Rightarrow> js_string" where
  "decimal_nat n =
     (if n < 10 then [of_nat (48 + n)]
      else decimal_nat (n div 10) @ [of_nat (48 + n mod 10)])"
  by pat_completeness auto
termination
  by (relation "measure id") auto

declare decimal_nat.simps [simp del]

definition int_to_string :: "int \<Rightarrow> js_string" where
  "int_to_string i = (if i < 0 then lit ''-'' @ decimal_nat (nat (- i)) else decimal_nat (nat i))"

text \<open>
  A decoder for the line texts of the examples below: it gives them the values
  \<open>JSON.parse\<close> gives them, and it rejects every other text (among them \<open>not json\<close>
  and the blank lines).
\<close>

definition sample_lines :: "(js_string \<times> int json) list" where
  \<open>sample_lines =
     [(lit ''{"s":"A","o":"B"}'', JObj [(lit ''s'', JStr (lit ''A'')), (lit ''o'', JStr (lit ''B''))]),
      (lit ''{"s":"A","o":"C"}'', JObj [(lit ''s'', JStr (lit ''A'')), (lit ''o'', JStr (lit ''C''))]),
      (lit ''{"s":"C","o":"D"}'', JObj [(lit ''s'', JStr (lit ''C'')), (lit ''o'', JStr (lit ''D''))]),
      (lit ''{"s":"A","o":"B","w":2}'',
         JObj [(lit ''s'', JStr (lit ''A'')), (lit ''o'', JStr (lit ''B'')), (lit ''w'', JNum 2)]),
      (lit ''{"s":1,"o":"B"}'', JObj [(lit ''s'', JNum 1), (lit ''o'', JStr (lit ''B''))]),
      (lit ''{"s":"1","o":"B"}'', JObj [(lit ''s'', JStr (lit ''1'')), (lit ''o'', JStr (lit ''B''))]),
      (lit ''{"o":"B"}'', JObj [(lit ''o'', JStr (lit ''B''))]),
      (lit ''{"s":"A"}'', JObj [(lit ''s'', JStr (lit ''A''))]),
      (lit ''{}'', JObj []),
      (lit ''{"s":"undefined","o":"undefined"}'',
         JObj [(lit ''s'', JStr (lit ''undefined'')), (lit ''o'', JStr (lit ''undefined''))]),
      (lit ''{"w":2}'', JObj [(lit ''w'', JNum 2)]),
      (lit ''null'', JNull),
      (lit ''true'', JBool True),
      (lit ''7'', JNum 7),
      (lit ''"A"'', JStr (lit ''A'')),
      (lit ''[1,2]'', JArr [JNum 1, JNum 2])]\<close>

definition sample_parse :: "js_string \<Rightarrow> int json option" where
  "sample_parse = map_of sample_lines"

text \<open>
  A file system with one readable file, of three lines; every other path cannot be
  opened. And a file of blank lines.
\<close>

definition sample_files :: "js_string \<Rightarrow> js_string line_stream" where
  \<open>sample_files filePath =
     (if filePath = lit ''/app/.next/openship/graph''
      then delivering [lit ''{"s":"A","o":"B"}'', [], lit ''{"s":"C","o":"D"}''] End
      else Fail (lit ''ENOENT''))\<close>

definition blank_file :: "js_string \<Rightarrow> js_string line_stream" where
  "blank_file filePath = delivering [[], [0x20, 0x20], [0x9, 0xD]] End"

section \<open>Properties of the reader\<close>

subsection \<open>The loop, one line at a time\<close>

lemma run_Nil: "run parse ns [] = initial_state"
  by (simp add: run_def)

lemma run_snoc: "run parse ns (rl @ [line]) = loop_body parse ns (run parse ns rl) line"
  by (simp add: run_def)

lemma run_append:
  "run parse ns (xs @ ys) = fold (\<lambda>line st. loop_body parse ns st line) ys (run parse ns xs)"
  by (simp add: run_def)

lemma valid_records_Nil: "valid_records parse ns [] = []"
  by (simp add: valid_records_def map_filter_simps)

lemma valid_records_append:
  "valid_records parse ns (xs @ ys) = valid_records parse ns xs @ valid_records parse ns ys"
  by (simp add: valid_records_def map_filter_def)

lemma valid_records_Cons:
  "valid_records parse ns (l # ls) =
     (case line_record parse ns l of None \<Rightarrow> [] | Some p \<Rightarrow> [p]) @ valid_records parse ns ls"
  by (simp add: valid_records_def map_filter_simps split: option.splits)

lemma first_occurrences_Nil: "first_occurrences [] = []"
  by (simp add: first_occurrences_def)

lemma first_occurrences_snoc:
  "first_occurrences (xs @ [x]) =
     first_occurrences xs @ (if fst x \<in> fst ` set xs then [] else [x])"
proof -
  let ?P = "\<lambda>ys i. \<forall>j \<in> set [0..<i]. fst (ys ! j) \<noteq> fst (ys ! i)"
  have old: "filter (?P (xs @ [x])) [0..<length xs] = filter (?P xs) [0..<length xs]"
    by (rule filter_cong) (auto simp: nth_append)
  have map_old: "map (\<lambda>i. (xs @ [x]) ! i) (filter (?P xs) [0..<length xs])
       = map (\<lambda>i. xs ! i) (filter (?P xs) [0..<length xs])"
    by (rule map_cong) (auto simp: nth_append)
  have new: "?P (xs @ [x]) (length xs) \<longleftrightarrow> fst x \<notin> fst ` set xs"
  proof
    assume a: "?P (xs @ [x]) (length xs)"
    show "fst x \<notin> fst ` set xs"
    proof
      assume "fst x \<in> fst ` set xs"
      then obtain y where y: "y \<in> set xs" "fst y = fst x" by auto
      then obtain j where j: "j < length xs" "xs ! j = y" by (auto simp: in_set_conv_nth)
      with a y show False by (auto simp: nth_append)
    qed
  next
    assume a: "fst x \<notin> fst ` set xs"
    show "?P (xs @ [x]) (length xs)"
    proof
      fix j assume "j \<in> set [0..<length xs]"
      then have j: "j < length xs" by simp
      then have "xs ! j \<in> set xs" by simp
      with a have "fst (xs ! j) \<noteq> fst x" by (metis imageI)
      with j show "fst ((xs @ [x]) ! j) \<noteq> fst ((xs @ [x]) ! length xs)"
        by (simp add: nth_append)
    qed
  qed
  show ?thesis
    unfolding first_occurrences_def
    using old map_old new by (simp add: nth_append)
qed

lemma set_seen_run:
  "set_seen (run parse ns rl) = fst ` set (valid_records parse ns rl)"
proof (induction rl rule: rev_induct)
  case Nil
  show ?case by (simp add: run_Nil valid_records_Nil initial_state_def)
next
  case (snoc l rl)
  then show ?case
    by (auto simp: run_snoc valid_records_append valid_records_Cons valid_records_Nil
        loop_body_def line_record_def split: option.splits sum.splits)
qed

lemma jsonObjects_run:
  "jsonObjects (run parse ns rl) = map snd (first_occurrences (valid_records parse ns rl))"
proof (induction rl rule: rev_induct)
  case Nil
  show ?case by (simp add: run_Nil valid_records_Nil first_occurrences_Nil initial_state_def)
next
  case (snoc l rl)
  then show ?case
    by (force simp: run_snoc valid_records_append valid_records_Cons valid_records_Nil
        first_occurrences_snoc set_seen_run
        loop_body_def line_record_def split: option.splits sum.splits)
qed

lemma console_error_run:
  "console_error (run parse ns rl) = concat (map (line_diagnostic parse ns) rl)"
proof (induction rl rule: rev_induct)
  case Nil
  show ?case by (simp add: run_Nil initial_state_def)
next
  case (snoc l rl)
  then show ?case
    by (auto simp: run_snoc loop_body_def line_diagnostic_def split: option.splits sum.splits)
qed


lemma valid_records_key:
  "p \<in> set (valid_records parse ns rl) \<Longrightarrow> mangled ns (snd p) = Inr (fst p)"
  by (auto simp: valid_records_def map_filter_def line_record_def
      split: if_splits option.splits sum.splits)

lemma filter_key_first_occurrences:
  "filter (\<lambda>p. fst p = k) (first_occurrences xs) = take 1 (filter (\<lambda>p. fst p = k) xs)"
proof (induction xs rule: rev_induct)
  case Nil
  show ?case by (simp add: first_occurrences_Nil)
next
  case (snoc x xs)
  show ?case
  proof (cases "fst x = k")
    case False
    with snoc show ?thesis by (simp add: first_occurrences_snoc)
  next
    case True
    show ?thesis
    proof (cases "k \<in> fst ` set xs")
      case True
      then have "filter (\<lambda>p. fst p = k) xs \<noteq> []"
        by (auto simp: filter_empty_conv)
      with snoc True \<open>fst x = k\<close> show ?thesis
        by (simp add: first_occurrences_snoc Suc_le_eq)
    next
      case False
      then have "filter (\<lambda>p. fst p = k) xs = []"
        by (auto simp: filter_empty_conv)
      with snoc False \<open>fst x = k\<close> show ?thesis
        by (simp add: first_occurrences_snoc)
    qed
  qed
qed

lemma set_first_occurrences: "set (first_occurrences xs) \<subseteq> set xs"
  by (induction xs rule: rev_induct) (auto simp: first_occurrences_Nil first_occurrences_snoc)

lemma keys_first_occurrences: "fst ` set (first_occurrences xs) = fst ` set xs"
  by (induction xs rule: rev_induct) (auto simp: first_occurrences_Nil first_occurrences_snoc)

lemma distinct_first_occurrences: "distinct (map fst (first_occurrences xs))"
  by (induction xs rule: rev_induct)
    (auto simp: first_occurrences_Nil first_occurrences_snoc keys_first_occurrences)

lemma take1_filter_find:
  "take 1 (filter P xs) = (case find P xs of None \<Rightarrow> [] | Some x \<Rightarrow> [x])"
  by (induction xs) auto

lemma find_key_valid:
  assumes "k \<in> fst ` set xs"
  shows "\<exists>r. find (\<lambda>p. fst p = k) xs = Some (k, r)"
proof -
  from assms have "find (\<lambda>p. fst p = k) xs \<noteq> None"
    by (auto simp: find_None_iff)
  then obtain p where p: "find (\<lambda>p. fst p = k) xs = Some p" by auto
  then have "fst p = k" by (auto simp: find_Some_iff)
  with p show ?thesis by (cases p) auto
qed

lemma mangled_output:
  "map (mangled ns) (readJsonFileLineByLine parse ns rl) =
     map (\<lambda>p. Inr (fst p)) (first_occurrences (valid_records parse ns rl))"
proof -
  have "\<And>p. p \<in> set (first_occurrences (valid_records parse ns rl)) \<Longrightarrow>
          mangled ns (snd p) = Inr (fst p)"
    using set_first_occurrences valid_records_key by blast
  then show ?thesis
    by (simp add: readJsonFileLineByLine_def jsonObjects_run)
qed

lemma filter_output:
  "filter (\<lambda>x. mangled ns x = Inr k) (readJsonFileLineByLine parse ns rl) =
     map snd (take 1 (filter (\<lambda>p. fst p = k) (valid_records parse ns rl)))"
proof -
  have "filter (\<lambda>x. mangled ns x = Inr k) (map snd (first_occurrences (valid_records parse ns rl)))
      = map snd (filter (\<lambda>p. fst p = k) (first_occurrences (valid_records parse ns rl)))"
    unfolding filter_map comp_def
    by (rule arg_cong [where f = "map snd"], rule filter_cong)
      (use set_first_occurrences valid_records_key in fastforce)+
  then show ?thesis
    by (simp add: readJsonFileLineByLine_def jsonObjects_run filter_key_first_occurrences)
qed


lemma for_await_delivering:
  "for_await parse ns st (delivering ls s) =
     for_await parse ns (fold (\<lambda>line st. loop_body parse ns st line) ls st) s"
  by (induction ls arbitrary: st) simp_all

lemma call_delivering_End:
  "lines_of filePath = delivering ls End \<Longrightarrow>
   readJsonFileLineByLine_call parse ns lines_of filePath =
     Inr (readJsonFileLineByLine parse ns ls)"
  by (simp add: readJsonFileLineByLine_call_def for_await_delivering
      readJsonFileLineByLine_def run_def)

lemma call_delivering_Fail:
  "lines_of filePath = delivering ls (Fail e) \<Longrightarrow>
   readJsonFileLineByLine_call parse ns lines_of filePath = Inl e"
  by (simp add: readJsonFileLineByLine_call_def for_await_delivering)

text \<open>The definitions unfolded to run the reader on concrete lines.\<close>

lemmas eval_defs =
  readJsonFileLineByLine_def diagnostics_def run_def loop_body_def initial_state_def
  valid_records_def line_record_def map_filter_simps line_diagnostic_def
  sample_parse_def sample_lines_def lit_def trim_def is_white_space_def
  mangled_def to_str_undef_def lacks_both_def
  readJsonFileLineByLine_call_def sample_files_def blank_file_def


subsection \<open>Deduplication\<close>

text \<open>
  Claim C1. For every input, no two records of the returned sequence have equal keys,
  and for every key that a valid, non-blank line produces, the returned sequence holds
  exactly one record with that key: the record of the first line, in stream order,
  that produced the key.
\<close>

theorem dedup_correctness:
  "distinct (map (mangled ns) (readJsonFileLineByLine parse ns rl)) \<and>
   (\<forall>k \<in> fst ` set (valid_records parse ns rl).
      \<exists>r. find (\<lambda>p. fst p = k) (valid_records parse ns rl) = Some (k, r) \<and>
          filter (\<lambda>x. mangled ns x = Inr k) (readJsonFileLineByLine parse ns rl) = [r])"
proof
  have "distinct (map (\<lambda>p. (Inr (fst p) :: js_error + js_string))
          (first_occurrences (valid_records parse ns rl)))"
    using distinct_first_occurrences [of "valid_records parse ns rl"]
    by (simp add: distinct_map inj_on_def)
  then show "distinct (map (mangled ns) (readJsonFileLineByLine parse ns rl))"
    by (simp add: mangled_output)
next
  show "\<forall>k \<in> fst ` set (valid_records parse ns rl).
      \<exists>r. find (\<lambda>p. fst p = k) (valid_records parse ns rl) = Some (k, r) \<and>
          filter (\<lambda>x. mangled ns x = Inr k) (readJsonFileLineByLine parse ns rl) = [r]"
  proof
    fix k assume "k \<in> fst ` set (valid_records parse ns rl)"
    from find_key_valid [OF this]
    obtain r where r: "find (\<lambda>p. fst p = k) (valid_records parse ns rl) = Some (k, r)"
      by blast
    have "filter (\<lambda>x. mangled ns x = Inr k) (readJsonFileLineByLine parse ns rl) = [r]"
      unfolding filter_output take1_filter_find r by simp
    with r show "\<exists>r. find (\<lambda>p. fst p = k) (valid_records parse ns rl) = Some (k, r) \<and>
          filter (\<lambda>x. mangled ns x = Inr k) (readJsonFileLineByLine parse ns rl) = [r]"
      by blast
  qed
qed

theorem dedup_correctness_witness:
  \<open>distinct (map (mangled int_to_string)
      (readJsonFileLineByLine sample_parse int_to_string
         [lit ''{"s":"A","o":"B"}'', lit ''{"s":"A","o":"B","w":2}'', lit ''not json'',
          lit ''{"s":"A","o":"C"}''])) \<and>
    lit ''A::B'' \<in> fst ` set (valid_records sample_parse int_to_string
         [lit ''{"s":"A","o":"B"}'', lit ''{"s":"A","o":"B","w":2}'', lit ''not json'',
          lit ''{"s":"A","o":"C"}'']) \<and>
    filter (\<lambda>x. mangled int_to_string x = Inr (lit ''A::B''))
      (readJsonFileLineByLine sample_parse int_to_string
         [lit ''{"s":"A","o":"B"}'', lit ''{"s":"A","o":"B","w":2}'', lit ''not json'',
          lit ''{"s":"A","o":"C"}''])
      = [JObj [(lit ''s'', JStr (lit ''A'')), (lit ''o'', JStr (lit ''B''))]]\<close>
proof -
  let ?rl = \<open>[lit ''{"s":"A","o":"B"}'', lit ''{"s":"A","o":"B","w":2}'', lit ''not json'',
          lit ''{"s":"A","o":"C"}'']\<close>
  let ?vr = "valid_records sample_parse int_to_string ?rl"
  have vr: \<open>?vr =
     [(lit ''A::B'', JObj [(lit ''s'', JStr (lit ''A'')), (lit ''o'', JStr (lit ''B''))]),
      (lit ''A::B'', JObj [(lit ''s'', JStr (lit ''A'')), (lit ''o'', JStr (lit ''B'')),
                           (lit ''w'', JNum 2)]),
      (lit ''A::C'', JObj [(lit ''s'', JStr (lit ''A'')), (lit ''o'', JStr (lit ''C''))])]\<close>
    by (simp add: eval_defs)
  have mem: "lit ''A::B'' \<in> fst ` set ?vr"
    unfolding vr by simp
  have first: \<open>find (\<lambda>p. fst p = lit ''A::B'') ?vr =
      Some (lit ''A::B'', JObj [(lit ''s'', JStr (lit ''A'')), (lit ''o'', JStr (lit ''B''))])\<close>
    unfolding vr by simp
  from dedup_correctness [of int_to_string sample_parse ?rl] mem first
  show ?thesis by auto
qed

lemma line_record_None_valid:
  "line_record parse ns line = None \<Longrightarrow>
   valid_records parse ns (xs @ line # ys) = valid_records parse ns (xs @ ys)"
  by (simp add: valid_records_append valid_records_Cons)

lemma loop_body_record:
  "line_record parse ns line = Some (k, obj) \<Longrightarrow>
   loop_body parse ns st line =
     (if k \<in> set_seen st then st
      else st\<lparr>set_seen := insert k (set_seen st), jsonObjects := jsonObjects st @ [obj]\<rparr>)"
  by (auto simp: loop_body_def line_record_def split: if_splits option.splits sum.splits)

lemma loop_body_blank: "trim line = [] \<Longrightarrow> loop_body parse ns st line = st"
  by (simp add: loop_body_def)

lemma run_insert:
  "run parse ns (xs @ line # ys) =
     fold (\<lambda>line st. loop_body parse ns st line) ys (loop_body parse ns (run parse ns xs) line)"
  by (simp add: run_def)

lemma run_skip:
  "loop_body parse ns (run parse ns xs) line = run parse ns xs \<Longrightarrow>
   run parse ns (xs @ line # ys) = run parse ns (xs @ ys)"
  by (simp add: run_insert run_append)

lemma run_duplicate:
  assumes "line_record parse ns line = Some (k, r)"
    and "k \<in> fst ` set (valid_records parse ns xs)"
  shows "run parse ns (xs @ line # ys) = run parse ns (xs @ ys)"
proof (rule run_skip)
  from assms(2) have "k \<in> set_seen (run parse ns xs)"
    by (simp add: set_seen_run)
  with assms(1) show "loop_body parse ns (run parse ns xs) line = run parse ns xs"
    by (simp add: loop_body_record)
qed

lemma loop_body_prefix: "prefix (jsonObjects st) (jsonObjects (loop_body parse ns st line))"
  by (auto simp: loop_body_def split: option.splits sum.splits)

lemma fold_loop_body_prefix:
  "prefix (jsonObjects st) (jsonObjects (fold (\<lambda>line st. loop_body parse ns st line) ys st))"
proof (induction ys arbitrary: st)
  case Nil
  show ?case by simp
next
  case (Cons y ys)
  have "prefix (jsonObjects st) (jsonObjects (loop_body parse ns st y))"
    by (rule loop_body_prefix)
  also have "prefix \<dots> (jsonObjects (fold (\<lambda>line st. loop_body parse ns st line) ys
                 (loop_body parse ns st y)))"
    by (rule Cons.IH)
  finally show ?case by simp
qed

lemma diagnostics_append:
  "diagnostics parse ns (xs @ ys) = diagnostics parse ns xs @ diagnostics parse ns ys"
  by (simp add: diagnostics_def console_error_run)

lemma diagnostics_Cons:
  "diagnostics parse ns (line # ys) = line_diagnostic parse ns line @ diagnostics parse ns ys"
  by (simp add: diagnostics_def console_error_run)

lemma trim_blank_iff: "trim line = [] \<longleftrightarrow> (\<forall>c \<in> set line. is_white_space c)"
proof
  assume "trim line = []"
  then have all: "\<forall>c \<in> set (dropWhile is_white_space line). is_white_space c"
    by (simp add: trim_def dropWhile_eq_Nil_conv)
  have "dropWhile is_white_space line = []"
  proof (rule ccontr)
    assume ne: "dropWhile is_white_space line \<noteq> []"
    then have "\<not> is_white_space (hd (dropWhile is_white_space line))"
      by (rule hd_dropWhile)
    moreover from ne have "hd (dropWhile is_white_space line) \<in> set (dropWhile is_white_space line)"
      by (rule hd_in_set)
    ultimately show False using all by blast
  qed
  then show "\<forall>c \<in> set line. is_white_space c"
    by (simp add: dropWhile_eq_Nil_conv)
next
  assume "\<forall>c \<in> set line. is_white_space c"
  then have d: "dropWhile is_white_space line = []"
    by (simp add: dropWhile_eq_Nil_conv)
  show "trim line = []"
    unfolding trim_def d by simp
qed

subsection \<open>Order\<close>

text \<open>
  Claim C2. For every input, the returned sequence is the sequence of first occurrences
  of the keys among the records of the valid lines, in stream order. Reading further
  lines only extends the sequence (what was returned for a prefix of the input stays a
  prefix), and a later line whose key has been seen changes nothing: the sequence is
  the one returned without that line.
\<close>

theorem order_preservation:
  "readJsonFileLineByLine parse ns rl = map snd (first_occurrences (valid_records parse ns rl)) \<and>
   prefix (readJsonFileLineByLine parse ns rl) (readJsonFileLineByLine parse ns (rl @ rest)) \<and>
   (line_record parse ns line = Some (k, r) \<and> k \<in> fst ` set (valid_records parse ns rl) \<longrightarrow>
      readJsonFileLineByLine parse ns (rl @ line # rest) =
      readJsonFileLineByLine parse ns (rl @ rest))"
proof (intro conjI impI)
  show "readJsonFileLineByLine parse ns rl =
      map snd (first_occurrences (valid_records parse ns rl))"
    by (simp add: readJsonFileLineByLine_def jsonObjects_run)
next
  show "prefix (readJsonFileLineByLine parse ns rl) (readJsonFileLineByLine parse ns (rl @ rest))"
    unfolding readJsonFileLineByLine_def run_append by (rule fold_loop_body_prefix)
next
  assume "line_record parse ns line = Some (k, r) \<and> k \<in> fst ` set (valid_records parse ns rl)"
  then have "run parse ns (rl @ line # rest) = run parse ns (rl @ rest)"
    using run_duplicate by blast
  then show "readJsonFileLineByLine parse ns (rl @ line # rest) =
      readJsonFileLineByLine parse ns (rl @ rest)"
    by (simp add: readJsonFileLineByLine_def)
qed

theorem order_preservation_witness:
  \<open>map snd (first_occurrences (valid_records sample_parse int_to_string
       [lit ''{"s":"C","o":"D"}'', lit ''not json'', lit ''{"s":"A","o":"B"}'',
        lit ''{"s":"C","o":"D"}'', lit ''{"s":"A","o":"C"}'']))
     = [JObj [(lit ''s'', JStr (lit ''C'')), (lit ''o'', JStr (lit ''D''))],
        JObj [(lit ''s'', JStr (lit ''A'')), (lit ''o'', JStr (lit ''B''))],
        JObj [(lit ''s'', JStr (lit ''A'')), (lit ''o'', JStr (lit ''C''))]] \<and>
   line_record sample_parse int_to_string (lit ''{"s":"A","o":"B","w":2}'')
     = Some (lit ''A::B'',
         JObj [(lit ''s'', JStr (lit ''A'')), (lit ''o'', JStr (lit ''B'')), (lit ''w'', JNum 2)]) \<and>
   lit ''A::B'' \<in> fst ` set (valid_records sample_parse int_to_string
       [lit ''{"s":"C","o":"D"}'', lit ''not json'', lit ''{"s":"A","o":"B"}'',
        lit ''{"s":"C","o":"D"}'', lit ''{"s":"A","o":"C"}'']) \<and>
   readJsonFileLineByLine sample_parse int_to_string
       ([lit ''{"s":"C","o":"D"}'', lit ''not json'', lit ''{"s":"A","o":"B"}'',
         lit ''{"s":"C","o":"D"}'', lit ''{"s":"A","o":"C"}''] @
        lit ''{"s":"A","o":"B","w":2}'' # [lit ''{}''])
     = [JObj [(lit ''s'', JStr (lit ''C'')), (lit ''o'', JStr (lit ''D''))],
        JObj [(lit ''s'', JStr (lit ''A'')), (lit ''o'', JStr (lit ''B''))],
        JObj [(lit ''s'', JStr (lit ''A'')), (lit ''o'', JStr (lit ''C''))],
        JObj []]\<close>
proof -
  let ?rl = \<open>[lit ''{"s":"C","o":"D"}'', lit ''not json'', lit ''{"s":"A","o":"B"}'',
        lit ''{"s":"C","o":"D"}'', lit ''{"s":"A","o":"C"}'']\<close>
  let ?dup = \<open>lit ''{"s":"A","o":"B","w":2}''\<close>
  have out: \<open>readJsonFileLineByLine sample_parse int_to_string ?rl
     = [JObj [(lit ''s'', JStr (lit ''C'')), (lit ''o'', JStr (lit ''D''))],
        JObj [(lit ''s'', JStr (lit ''A'')), (lit ''o'', JStr (lit ''B''))],
        JObj [(lit ''s'', JStr (lit ''A'')), (lit ''o'', JStr (lit ''C''))]]\<close>
    by (simp add: eval_defs)
  have out': \<open>readJsonFileLineByLine sample_parse int_to_string (?rl @ [lit ''{}''])
     = [JObj [(lit ''s'', JStr (lit ''C'')), (lit ''o'', JStr (lit ''D''))],
        JObj [(lit ''s'', JStr (lit ''A'')), (lit ''o'', JStr (lit ''B''))],
        JObj [(lit ''s'', JStr (lit ''A'')), (lit ''o'', JStr (lit ''C''))],
        JObj []]\<close>
    by (simp add: eval_defs)
  have rec: \<open>line_record sample_parse int_to_string ?dup
     = Some (lit ''A::B'',
         JObj [(lit ''s'', JStr (lit ''A'')), (lit ''o'', JStr (lit ''B'')), (lit ''w'', JNum 2)])\<close>
    by (simp add: eval_defs)
  have seen: "lit ''A::B'' \<in> fst ` set (valid_records sample_parse int_to_string ?rl)"
    by (simp add: eval_defs)
  from order_preservation [of sample_parse int_to_string ?rl "[lit ''{}'']" ?dup "lit ''A::B''"
      \<open>JObj [(lit ''s'', JStr (lit ''A'')), (lit ''o'', JStr (lit ''B'')), (lit ''w'', JNum 2)]\<close>]
    out out' rec seen
  show ?thesis by simp
qed

subsection \<open>Lines that do not decode, blank lines, empty input\<close>

text \<open>
  Claim C3. For every input and every position in it, a line on which \<open>JSON.parse\<close>
  throws leaves the returned sequence and the set of seen keys as they are without the
  line, and the lines after it are read as before. The calls of \<open>console.error\<close> are
  those made without the line plus one for it, at its place. (Decoding is attempted on
  non-blank lines only; a blank line is skipped before it, see claim C6.)
\<close>

theorem malformed_line_resilience:
  "parse bad = None \<Longrightarrow>
   readJsonFileLineByLine parse ns (xs @ bad # ys) = readJsonFileLineByLine parse ns (xs @ ys) \<and>
   set_seen (run parse ns (xs @ bad # ys)) = set_seen (run parse ns (xs @ ys)) \<and>
   diagnostics parse ns (xs @ ys) = diagnostics parse ns xs @ diagnostics parse ns ys \<and>
   (trim bad \<noteq> [] \<longrightarrow>
      diagnostics parse ns (xs @ bad # ys) =
        diagnostics parse ns xs @
        (lit ''Error parsing line as JSON: '' @ bad, SyntaxError) # diagnostics parse ns ys)"
proof -
  assume bad: "parse bad = None"
  then have "line_record parse ns bad = None"
    by (simp add: line_record_def)
  then have vr: "valid_records parse ns (xs @ bad # ys) = valid_records parse ns (xs @ ys)"
    by (rule line_record_None_valid)
  have d: "trim bad \<noteq> [] \<Longrightarrow>
      line_diagnostic parse ns bad = [(lit ''Error parsing line as JSON: '' @ bad, SyntaxError)]"
    using bad by (simp add: line_diagnostic_def)
  show ?thesis
    using vr d
    by (simp add: readJsonFileLineByLine_def jsonObjects_run set_seen_run
        diagnostics_append diagnostics_Cons)
qed

theorem malformed_line_resilience_witness:
  \<open>sample_parse (lit ''not json'') = None \<and>
   trim (lit ''not json'') \<noteq> [] \<and>
   readJsonFileLineByLine sample_parse int_to_string
       ([lit ''{"s":"A","o":"B"}''] @ lit ''not json'' # [lit ''{"s":"C","o":"D"}''])
     = [JObj [(lit ''s'', JStr (lit ''A'')), (lit ''o'', JStr (lit ''B''))],
        JObj [(lit ''s'', JStr (lit ''C'')), (lit ''o'', JStr (lit ''D''))]] \<and>
   diagnostics sample_parse int_to_string
       ([lit ''{"s":"A","o":"B"}''] @ lit ''not json'' # [lit ''{"s":"C","o":"D"}''])
     = [(lit ''Error parsing line as JSON: not json'', SyntaxError)]\<close>
proof -
  have bad: "sample_parse (lit ''not json'') = None"
    by (simp add: eval_defs)
  have nonblank: "trim (lit ''not json'') \<noteq> []"
    by (simp add: eval_defs)
  have without: \<open>readJsonFileLineByLine sample_parse int_to_string
       ([lit ''{"s":"A","o":"B"}''] @ [lit ''{"s":"C","o":"D"}''])
     = [JObj [(lit ''s'', JStr (lit ''A'')), (lit ''o'', JStr (lit ''B''))],
        JObj [(lit ''s'', JStr (lit ''C'')), (lit ''o'', JStr (lit ''D''))]]\<close>
    by (simp add: eval_defs)
  have d1: \<open>diagnostics sample_parse int_to_string [lit ''{"s":"A","o":"B"}''] = []\<close>
    by (simp add: eval_defs)
  have d2: \<open>diagnostics sample_parse int_to_string [lit ''{"s":"C","o":"D"}''] = []\<close>
    by (simp add: eval_defs)
  have msg: "lit ''Error parsing line as JSON: '' @ lit ''not json'' =
      lit ''Error parsing line as JSON: not json''"
    by (simp add: lit_def)
  from malformed_line_resilience [of sample_parse "lit ''not json''" int_to_string
      \<open>[lit ''{"s":"A","o":"B"}'']\<close> \<open>[lit ''{"s":"C","o":"D"}'']\<close>]
    bad nonblank without d1 d2 msg
  show ?thesis by simp
qed

text \<open>
  Claim C6. For every input and every position in it, inserting a blank line (empty,
  or white space only) changes neither the returned sequence nor the calls of
  \<open>console.error\<close>: the whole state of the reader is the same.
\<close>

theorem blank_line_transparency:
  "\<forall>c \<in> set blank. is_white_space c \<Longrightarrow>
   readJsonFileLineByLine parse ns (xs @ blank # ys) = readJsonFileLineByLine parse ns (xs @ ys) \<and>
   diagnostics parse ns (xs @ blank # ys) = diagnostics parse ns (xs @ ys) \<and>
   run parse ns (xs @ blank # ys) = run parse ns (xs @ ys)"
proof -
  assume "\<forall>c \<in> set blank. is_white_space c"
  then have "trim blank = []"
    by (simp add: trim_blank_iff)
  then have "run parse ns (xs @ blank # ys) = run parse ns (xs @ ys)"
    by (simp add: run_skip loop_body_blank)
  then show ?thesis
    by (simp add: readJsonFileLineByLine_def diagnostics_def)
qed

theorem blank_line_transparency_witness:
  \<open>list_all is_white_space [0x20, 0x9, 0xA0] \<and>
   readJsonFileLineByLine sample_parse int_to_string
       ([lit ''{"s":"A","o":"B"}''] @ [0x20, 0x9, 0xA0] # [lit ''{"s":"C","o":"D"}''])
     = [JObj [(lit ''s'', JStr (lit ''A'')), (lit ''o'', JStr (lit ''B''))],
        JObj [(lit ''s'', JStr (lit ''C'')), (lit ''o'', JStr (lit ''D''))]] \<and>
   diagnostics sample_parse int_to_string
       ([lit ''{"s":"A","o":"B"}''] @ [0x20, 0x9, 0xA0] # [lit ''{"s":"C","o":"D"}'']) = []\<close>
proof -
  have blank: "\<forall>c \<in> set [0x20, 0x9, 0xA0 :: code_unit]. is_white_space c"
    by (simp add: is_white_space_def)
  have without: \<open>readJsonFileLineByLine sample_parse int_to_string
       ([lit ''{"s":"A","o":"B"}''] @ [lit ''{"s":"C","o":"D"}''])
     = [JObj [(lit ''s'', JStr (lit ''A'')), (lit ''o'', JStr (lit ''B''))],
        JObj [(lit ''s'', JStr (lit ''C'')), (lit ''o'', JStr (lit ''D''))]]\<close>
    by (simp add: eval_defs)
  have d: \<open>diagnostics sample_parse int_to_string
       ([lit ''{"s":"A","o":"B"}''] @ [lit ''{"s":"C","o":"D"}'']) = []\<close>
    by (simp add: eval_defs)
  from blank_line_transparency [of "[0x20, 0x9, 0xA0]" sample_parse int_to_string
      \<open>[lit ''{"s":"A","o":"B"}'']\<close> \<open>[lit ''{"s":"C","o":"D"}'']\<close>] blank without d
  show ?thesis by (simp add: list_all_iff)
qed

text \<open>
  Claim C8. On an input of no lines, and on an input of blank lines only, the reader
  returns the empty sequence and calls \<open>console.error\<close> not once; the call on a file
  whose stream delivers such lines and ends is not a failure, it returns the empty
  sequence.
\<close>

theorem empty_input_empty_output:
  "readJsonFileLineByLine parse ns [] = [] \<and>
   diagnostics parse ns [] = [] \<and>
   ((\<forall>line \<in> set rl. \<forall>c \<in> set line. is_white_space c) \<longrightarrow>
      readJsonFileLineByLine parse ns rl = [] \<and> diagnostics parse ns rl = [] \<and>
      (lines_of filePath = delivering rl End \<longrightarrow>
         readJsonFileLineByLine_call parse ns lines_of filePath = Inr []))"
proof (intro conjI impI)
  show "readJsonFileLineByLine parse ns [] = []"
    by (simp add: readJsonFileLineByLine_def run_Nil initial_state_def)
  show "diagnostics parse ns [] = []"
    by (simp add: diagnostics_def run_Nil initial_state_def)
next
  assume blank: "\<forall>line \<in> set rl. \<forall>c \<in> set line. is_white_space c"
  have "run parse ns rl = initial_state"
    using blank
  proof (induction rl rule: rev_induct)
    case Nil
    show ?case by (rule run_Nil)
  next
    case (snoc line rl)
    then have "trim line = []" by (simp add: trim_blank_iff)
    with snoc show ?case by (simp add: run_snoc loop_body_blank)
  qed
  then show empty: "readJsonFileLineByLine parse ns rl = []"
    and "diagnostics parse ns rl = []"
    by (simp_all add: readJsonFileLineByLine_def diagnostics_def initial_state_def)
  assume "lines_of filePath = delivering rl End"
  then show "readJsonFileLineByLine_call parse ns lines_of filePath = Inr []"
    by (simp add: call_delivering_End empty)
qed

theorem empty_input_empty_output_witness:
  "list_all (list_all is_white_space) [[], [0x20, 0x20], [0x9, 0xD]] \<and>
   blank_file (lit ''graph'') = delivering [[], [0x20, 0x20], [0x9, 0xD]] End \<and>
   readJsonFileLineByLine sample_parse int_to_string [[], [0x20, 0x20], [0x9, 0xD]] = [] \<and>
   diagnostics sample_parse int_to_string [[], [0x20, 0x20], [0x9, 0xD]] = [] \<and>
   readJsonFileLineByLine_call sample_parse int_to_string blank_file (lit ''graph'') = Inr [] \<and>
   readJsonFileLineByLine sample_parse int_to_string [] = []"
proof -
  have blank: "\<forall>line \<in> set [[], [0x20, 0x20], [0x9, 0xD :: code_unit]].
      \<forall>c \<in> set line. is_white_space c"
    by (simp add: is_white_space_def)
  have bf: "blank_file (lit ''graph'') = delivering [[], [0x20, 0x20], [0x9, 0xD]] End"
    by (simp add: blank_file_def)
  from empty_input_empty_output [of sample_parse int_to_string "[[], [0x20, 0x20], [0x9, 0xD]]"
      blank_file "lit ''graph''"] blank bf
  have "readJsonFileLineByLine sample_parse int_to_string [[], [0x20, 0x20], [0x9, 0xD]] = [] \<and>
      diagnostics sample_parse int_to_string [[], [0x20, 0x20], [0x9, 0xD]] = [] \<and>
      readJsonFileLineByLine_call sample_parse int_to_string blank_file (lit ''graph'') = Inr [] \<and>
      readJsonFileLineByLine sample_parse int_to_string [] = []"
    by blast
  with blank bf show ?thesis by (simp add: list_all_iff)
qed

lemma output_keys:
  "mangled ns ` set (readJsonFileLineByLine parse ns rl) =
     Inr ` fst ` set (valid_records parse ns rl)"
proof -
  have "mangled ns ` set (readJsonFileLineByLine parse ns rl) =
      set (map (mangled ns) (readJsonFileLineByLine parse ns rl))"
    by simp
  also have "\<dots> = Inr ` fst ` set (first_occurrences (valid_records parse ns rl))"
    unfolding mangled_output by (simp add: image_image)
  finally show ?thesis
    by (simp add: keys_first_occurrences)
qed

lemma key_seen_iff:
  "(\<exists>r \<in> set (readJsonFileLineByLine parse ns rl). mangled ns r = Inr k) \<longleftrightarrow>
   k \<in> set_seen (run parse ns rl)"
proof -
  have "(\<exists>r \<in> set (readJsonFileLineByLine parse ns rl). mangled ns r = Inr k) \<longleftrightarrow>
      Inr k \<in> mangled ns ` set (readJsonFileLineByLine parse ns rl)"
    by (metis (no_types) image_iff)
  also have "\<dots> \<longleftrightarrow> k \<in> fst ` set (valid_records parse ns rl)"
    unfolding output_keys by (simp add: inj_image_mem_iff)
  finally show ?thesis
    by (simp add: set_seen_run)
qed

lemma line_record_key: "line_record parse ns line = Some (k, obj) \<Longrightarrow> mangled ns obj = Inr k"
  by (auto simp: line_record_def split: if_splits option.splits sum.splits)

lemma readJson_snoc_record:
  assumes "line_record parse ns line = Some (k, obj)"
  shows "readJsonFileLineByLine parse ns (rl @ [line]) =
     (if \<exists>r \<in> set (readJsonFileLineByLine parse ns rl). mangled ns r = Inr k
      then readJsonFileLineByLine parse ns rl
      else readJsonFileLineByLine parse ns rl @ [obj])"
  unfolding key_seen_iff
  by (simp add: readJsonFileLineByLine_def run_snoc loop_body_record [OF assms])

lemma mangled_fields:
  "get_prop obj (lit ''s'') = Inr p \<Longrightarrow> to_str_undef ns p = Inr a \<Longrightarrow>
   get_prop obj (lit ''o'') = Inr q \<Longrightarrow> to_str_undef ns q = Inr b \<Longrightarrow>
   mangled ns obj = Inr (a @ lit ''::'' @ b)"
  by (simp add: mangled_def)

lemma undefined_key: "lit ''undefined'' @ lit ''::'' @ lit ''undefined'' = lit ''undefined::undefined''"
  by (simp add: lit_def)

lemma lacks_both_key: "lacks_both obj \<Longrightarrow> mangled ns obj = Inr (lit ''undefined::undefined'')"
  by (simp add: lacks_both_def mangled_def to_str_undef_def undefined_key)

lemma non_object_lacks_both: "v \<noteq> JNull \<Longrightarrow> \<not> is_object v \<Longrightarrow> lacks_both v"
  by (cases v) (simp_all add: lacks_both_def)

subsection \<open>A file that cannot be opened\<close>

text \<open>
  Claim C4. When the path cannot be opened, so that the stream fails before its first
  line, the call fails with that error. Whenever the stream fails, after any number of
  lines, the call fails with the error and returns no sequence, neither the empty one
  nor the partial one read so far.
\<close>

theorem open_failure_propagates:
  "(lines_of filePath = Fail e \<longrightarrow>
      readJsonFileLineByLine_call parse ns lines_of filePath = Inl e) \<and>
   (lines_of filePath = delivering ls (Fail e) \<longrightarrow>
      readJsonFileLineByLine_call parse ns lines_of filePath = Inl e \<and>
      readJsonFileLineByLine_call parse ns lines_of filePath \<noteq> Inr [] \<and>
      readJsonFileLineByLine_call parse ns lines_of filePath \<noteq>
        Inr (readJsonFileLineByLine parse ns ls))"
proof (intro conjI impI)
  assume "lines_of filePath = Fail e"
  then have "lines_of filePath = delivering [] (Fail e)"
    by simp
  then show "readJsonFileLineByLine_call parse ns lines_of filePath = Inl e"
    by (rule call_delivering_Fail)
next
  assume "lines_of filePath = delivering ls (Fail e)"
  then have failed: "readJsonFileLineByLine_call parse ns lines_of filePath = Inl e"
    by (rule call_delivering_Fail)
  then show "readJsonFileLineByLine_call parse ns lines_of filePath = Inl e"
    and "readJsonFileLineByLine_call parse ns lines_of filePath \<noteq> Inr []"
    and "readJsonFileLineByLine_call parse ns lines_of filePath \<noteq>
        Inr (readJsonFileLineByLine parse ns ls)"
    by simp_all
qed

theorem open_failure_propagates_witness:
  \<open>sample_files (lit ''/app/missing'') = Fail (lit ''ENOENT'') \<and>
   readJsonFileLineByLine_call sample_parse int_to_string sample_files (lit ''/app/missing'')
     = Inl (lit ''ENOENT'') \<and>
   readJsonFileLineByLine_call sample_parse int_to_string
       (\<lambda>p. delivering [lit ''{"s":"A","o":"B"}''] (Fail (lit ''EIO''))) (lit ''/app/graph'')
     = Inl (lit ''EIO'') \<and>
   readJsonFileLineByLine_call sample_parse int_to_string sample_files
       (lit ''/app/.next/openship/graph'')
     = Inr [JObj [(lit ''s'', JStr (lit ''A'')), (lit ''o'', JStr (lit ''B''))],
            JObj [(lit ''s'', JStr (lit ''C'')), (lit ''o'', JStr (lit ''D''))]]\<close>
proof -
  have missing: "sample_files (lit ''/app/missing'') = Fail (lit ''ENOENT'')"
    by (simp add: sample_files_def lit_def)
  have readable: \<open>readJsonFileLineByLine_call sample_parse int_to_string sample_files
       (lit ''/app/.next/openship/graph'')
     = Inr [JObj [(lit ''s'', JStr (lit ''A'')), (lit ''o'', JStr (lit ''B''))],
            JObj [(lit ''s'', JStr (lit ''C'')), (lit ''o'', JStr (lit ''D''))]]\<close>
    by (simp add: eval_defs)
  from open_failure_propagates [of sample_files "lit ''/app/missing''" "lit ''ENOENT''"
      sample_parse int_to_string "[]"]
    open_failure_propagates [of \<open>\<lambda>p. delivering [lit ''{"s":"A","o":"B"}''] (Fail (lit ''EIO''))\<close>
      "lit ''/app/graph''" "lit ''EIO''" sample_parse int_to_string
      \<open>[lit ''{"s":"A","o":"B"}'']\<close>]
    missing readable
  show ?thesis by simp
qed

subsection \<open>Keys\<close>

text \<open>
  Claim C5. The key of a decoded record with string fields \<open>s\<close> and \<open>o\<close> is \<open>s\<close>, then
  \<open>::\<close>, then \<open>o\<close>; in general it is the string of the field \<open>s\<close>, then \<open>::\<close>, then
  the string of the field \<open>o\<close>. A record is dropped as a duplicate if and only if its
  key string equals the key string of a record already returned; otherwise it is
  appended. Keys are compared as they are, code unit by code unit.
\<close>

theorem key_derivation:
  "(map_of kvs (lit ''s'') = Some (JStr a) \<and> map_of kvs (lit ''o'') = Some (JStr b) \<longrightarrow>
      mangled ns (JObj kvs) = Inr (a @ lit ''::'' @ b)) \<and>
   (get_prop v (lit ''s'') = Inr p \<and> to_str_undef ns p = Inr c \<and>
    get_prop v (lit ''o'') = Inr q \<and> to_str_undef ns q = Inr d \<longrightarrow>
      mangled ns v = Inr (c @ lit ''::'' @ d)) \<and>
   (line_record parse ns line = Some (k, obj) \<longrightarrow>
      mangled ns obj = Inr k \<and>
      readJsonFileLineByLine parse ns (rl @ [line]) =
        (if \<exists>r \<in> set (readJsonFileLineByLine parse ns rl). mangled ns r = mangled ns obj
         then readJsonFileLineByLine parse ns rl
         else readJsonFileLineByLine parse ns rl @ [obj]))"
proof (intro conjI impI)
  assume "map_of kvs (lit ''s'') = Some (JStr a) \<and> map_of kvs (lit ''o'') = Some (JStr b)"
  then show "mangled ns (JObj kvs) = Inr (a @ lit ''::'' @ b)"
    by (simp add: mangled_def to_str_undef_def)
next
  assume "get_prop v (lit ''s'') = Inr p \<and> to_str_undef ns p = Inr c \<and>
    get_prop v (lit ''o'') = Inr q \<and> to_str_undef ns q = Inr d"
  then show "mangled ns v = Inr (c @ lit ''::'' @ d)"
    by (simp add: mangled_fields)
next
  assume rec: "line_record parse ns line = Some (k, obj)"
  then show key: "mangled ns obj = Inr k"
    by (rule line_record_key)
  show "readJsonFileLineByLine parse ns (rl @ [line]) =
        (if \<exists>r \<in> set (readJsonFileLineByLine parse ns rl). mangled ns r = mangled ns obj
         then readJsonFileLineByLine parse ns rl
         else readJsonFileLineByLine parse ns rl @ [obj])"
    unfolding key by (rule readJson_snoc_record [OF rec])
qed

theorem key_derivation_witness:
  \<open>map_of [(lit ''s'', JStr (lit ''A'')), (lit ''o'', JStr (lit ''B'') :: int json)] (lit ''s'')
     = Some (JStr (lit ''A'')) \<and>
   map_of [(lit ''s'', JStr (lit ''A'')), (lit ''o'', JStr (lit ''B'') :: int json)] (lit ''o'')
     = Some (JStr (lit ''B'')) \<and>
   mangled int_to_string (JObj [(lit ''s'', JStr (lit ''A'')), (lit ''o'', JStr (lit ''B''))])
     = Inr (lit ''A::B'') \<and>
   get_prop (JObj [(lit ''s'', JBool True), (lit ''o'', JNull)]) (lit ''s'')
     = Inr (Some (JBool True)) \<and>
   to_str_undef int_to_string (Some (JBool True)) = Inr (lit ''true'') \<and>
   get_prop (JObj [(lit ''s'', JBool True), (lit ''o'', JNull)]) (lit ''o'') = Inr (Some JNull) \<and>
   to_str_undef int_to_string (Some JNull) = Inr (lit ''null'') \<and>
   mangled int_to_string (JObj [(lit ''s'', JBool True), (lit ''o'', JNull)])
     = Inr (lit ''true::null'') \<and>
   line_record sample_parse int_to_string (lit ''{"s":"A","o":"B","w":2}'')
     = Some (lit ''A::B'',
         JObj [(lit ''s'', JStr (lit ''A'')), (lit ''o'', JStr (lit ''B'')), (lit ''w'', JNum 2)]) \<and>
   readJsonFileLineByLine sample_parse int_to_string
       ([lit ''{"s":"A","o":"B"}''] @ [lit ''{"s":"A","o":"B","w":2}''])
     = [JObj [(lit ''s'', JStr (lit ''A'')), (lit ''o'', JStr (lit ''B''))]] \<and>
   line_record sample_parse int_to_string (lit ''{"s":"A","o":"C"}'')
     = Some (lit ''A::C'', JObj [(lit ''s'', JStr (lit ''A'')), (lit ''o'', JStr (lit ''C''))]) \<and>
   readJsonFileLineByLine sample_parse int_to_string
       ([lit ''{"s":"A","o":"B"}''] @ [lit ''{"s":"A","o":"C"}''])
     = [JObj [(lit ''s'', JStr (lit ''A'')), (lit ''o'', JStr (lit ''B''))],
        JObj [(lit ''s'', JStr (lit ''A'')), (lit ''o'', JStr (lit ''C''))]]\<close>
proof -
  let ?kvs = "[(lit ''s'', JStr (lit ''A'')), (lit ''o'', JStr (lit ''B'') :: int json)]"
  let ?dup = "JObj [(lit ''s'', JStr (lit ''A'')), (lit ''o'', JStr (lit ''B'')),
                    (lit ''w'', JNum (2::int))]"
  let ?new = "JObj [(lit ''s'', JStr (lit ''A'')), (lit ''o'', JStr (lit ''C'') :: int json)]"
  have s: "map_of ?kvs (lit ''s'') = Some (JStr (lit ''A''))"
    and o: "map_of ?kvs (lit ''o'') = Some (JStr (lit ''B''))"
    by (simp_all add: lit_def)
  have key: "lit ''A'' @ lit ''::'' @ lit ''B'' = lit ''A::B''"
    and key': "lit ''true'' @ lit ''::'' @ lit ''null'' = lit ''true::null''"
    by (simp_all add: lit_def)
  have os: "lit ''o'' \<noteq> lit ''s''"
    by (simp add: lit_def)
  let ?v = "JObj [(lit ''s'', JBool True), (lit ''o'', JNull :: int json)]"
  have g: "get_prop ?v (lit ''s'') = Inr (Some (JBool True))"
      "to_str_undef int_to_string (Some (JBool True)) = Inr (lit ''true'')"
      "get_prop ?v (lit ''o'') = Inr (Some JNull)"
      "to_str_undef int_to_string (Some JNull) = Inr (lit ''null'')"
    by (simp_all add: to_str_undef_def lit_def)
  have rec_dup: \<open>line_record sample_parse int_to_string (lit ''{"s":"A","o":"B","w":2}'')
      = Some (lit ''A::B'', ?dup)\<close>
    by (simp add: eval_defs)
  have rec_new: \<open>line_record sample_parse int_to_string (lit ''{"s":"A","o":"C"}'')
      = Some (lit ''A::C'', ?new)\<close>
    by (simp add: eval_defs)
  have before: \<open>readJsonFileLineByLine sample_parse int_to_string [lit ''{"s":"A","o":"B"}'']
      = [JObj ?kvs]\<close>
    by (simp add: eval_defs)
  have same: "mangled int_to_string (JObj ?kvs) = mangled int_to_string ?dup"
    by (simp add: eval_defs)
  have other: "mangled int_to_string (JObj ?kvs) \<noteq> mangled int_to_string ?new"
    by (simp add: eval_defs)
  from key_derivation [of ?kvs "lit ''A''" "lit ''B''" int_to_string ?v "Some (JBool True)"
      "lit ''true''" "Some JNull" "lit ''null''" sample_parse
      \<open>lit ''{"s":"A","o":"B","w":2}''\<close> "lit ''A::B''" ?dup \<open>[lit ''{"s":"A","o":"B"}'']\<close>]
    key_derivation [of ?kvs "lit ''A''" "lit ''B''" int_to_string ?v "Some (JBool True)"
      "lit ''true''" "Some JNull" "lit ''null''" sample_parse
      \<open>lit ''{"s":"A","o":"C"}''\<close> "lit ''A::C''" ?new \<open>[lit ''{"s":"A","o":"B"}'']\<close>]
    s o key key' g rec_dup rec_new before same other os
  show ?thesis by simp
qed

text \<open>
  Claim C9. A non-blank line that decodes to \<open>null\<close> is dropped and reported: the
  property read throws a TypeError inside the \<open>try\<close> block, so the returned sequence is
  the one without the line and \<open>console.error\<close> is called once for it. A non-blank line
  that decodes to any other value that is not an object (a boolean, a number, a string,
  an array) is not reported and is taken as a record with key \<open>undefined::undefined\<close>:
  like every record it is appended unless its key has been seen.
\<close>

theorem null_and_non_object_lines:
  "(trim nl \<noteq> [] \<and> parse nl = Some JNull \<longrightarrow>
      readJsonFileLineByLine parse ns (xs @ nl # ys) = readJsonFileLineByLine parse ns (xs @ ys) \<and>
      diagnostics parse ns (xs @ nl # ys) =
        diagnostics parse ns xs @
        (lit ''Error parsing line as JSON: '' @ nl, TypeError) # diagnostics parse ns ys) \<and>
   (trim line \<noteq> [] \<and> parse line = Some v \<and> v \<noteq> JNull \<and> \<not> is_object v \<longrightarrow>
      mangled ns v = Inr (lit ''undefined::undefined'') \<and>
      diagnostics parse ns (rl @ [line]) = diagnostics parse ns rl \<and>
      readJsonFileLineByLine parse ns (rl @ [line]) =
        (if \<exists>r \<in> set (readJsonFileLineByLine parse ns rl).
              mangled ns r = Inr (lit ''undefined::undefined'')
         then readJsonFileLineByLine parse ns rl
         else readJsonFileLineByLine parse ns rl @ [v]))"
proof (intro conjI impI)
  assume a: "trim nl \<noteq> [] \<and> parse nl = Some JNull"
  then have "line_record parse ns nl = None"
    by (simp add: line_record_def mangled_def)
  then have "valid_records parse ns (xs @ nl # ys) = valid_records parse ns (xs @ ys)"
    by (rule line_record_None_valid)
  then show "readJsonFileLineByLine parse ns (xs @ nl # ys) =
      readJsonFileLineByLine parse ns (xs @ ys)"
    by (simp add: readJsonFileLineByLine_def jsonObjects_run)
  from a have "line_diagnostic parse ns nl =
      [(lit ''Error parsing line as JSON: '' @ nl, TypeError)]"
    by (simp add: line_diagnostic_def mangled_def)
  then show "diagnostics parse ns (xs @ nl # ys) =
        diagnostics parse ns xs @
        (lit ''Error parsing line as JSON: '' @ nl, TypeError) # diagnostics parse ns ys"
    by (simp add: diagnostics_append diagnostics_Cons)
next
  assume a: "trim line \<noteq> [] \<and> parse line = Some v \<and> v \<noteq> JNull \<and> \<not> is_object v"
  then show key: "mangled ns v = Inr (lit ''undefined::undefined'')"
    by (simp add: lacks_both_key non_object_lacks_both)
  from a key have "line_diagnostic parse ns line = []"
    by (simp add: line_diagnostic_def)
  then show "diagnostics parse ns (rl @ [line]) = diagnostics parse ns rl"
    by (simp add: diagnostics_def console_error_run)
  from a key have "line_record parse ns line = Some (lit ''undefined::undefined'', v)"
    by (simp add: line_record_def)
  then show "readJsonFileLineByLine parse ns (rl @ [line]) =
        (if \<exists>r \<in> set (readJsonFileLineByLine parse ns rl).
              mangled ns r = Inr (lit ''undefined::undefined'')
         then readJsonFileLineByLine parse ns rl
         else readJsonFileLineByLine parse ns rl @ [v])"
    by (rule readJson_snoc_record)
qed

theorem null_and_non_object_lines_witness:
  \<open>trim (lit ''null'') \<noteq> [] \<and> sample_parse (lit ''null'') = Some JNull \<and>
   readJsonFileLineByLine sample_parse int_to_string
       ([lit ''{"s":"A","o":"B"}''] @ lit ''null'' # [lit ''{"s":"C","o":"D"}''])
     = [JObj [(lit ''s'', JStr (lit ''A'')), (lit ''o'', JStr (lit ''B''))],
        JObj [(lit ''s'', JStr (lit ''C'')), (lit ''o'', JStr (lit ''D''))]] \<and>
   diagnostics sample_parse int_to_string
       ([lit ''{"s":"A","o":"B"}''] @ lit ''null'' # [lit ''{"s":"C","o":"D"}''])
     = [(lit ''Error parsing line as JSON: null'', TypeError)] \<and>
   trim (lit ''[1,2]'') \<noteq> [] \<and> sample_parse (lit ''[1,2]'') = Some (JArr [JNum 1, JNum 2]) \<and>
   mangled int_to_string (JArr [JNum 1, JNum 2]) = Inr (lit ''undefined::undefined'') \<and>
   readJsonFileLineByLine sample_parse int_to_string ([lit ''{"s":"A","o":"B"}''] @ [lit ''[1,2]''])
     = [JObj [(lit ''s'', JStr (lit ''A'')), (lit ''o'', JStr (lit ''B''))],
        JArr [JNum 1, JNum 2]] \<and>
   diagnostics sample_parse int_to_string ([lit ''{"s":"A","o":"B"}''] @ [lit ''[1,2]'']) = []\<close>
proof -
  have n1: "trim (lit ''null'') \<noteq> []" and n2: "sample_parse (lit ''null'') = Some JNull"
    by (simp_all add: eval_defs)
  have a1: "trim (lit ''[1,2]'') \<noteq> []"
    and a2: "sample_parse (lit ''[1,2]'') = Some (JArr [JNum 1, JNum 2])"
    by (simp_all add: eval_defs)
  have without: \<open>readJsonFileLineByLine sample_parse int_to_string
       ([lit ''{"s":"A","o":"B"}''] @ [lit ''{"s":"C","o":"D"}''])
     = [JObj [(lit ''s'', JStr (lit ''A'')), (lit ''o'', JStr (lit ''B''))],
        JObj [(lit ''s'', JStr (lit ''C'')), (lit ''o'', JStr (lit ''D''))]]\<close>
    by (simp add: eval_defs)
  have before: \<open>readJsonFileLineByLine sample_parse int_to_string [lit ''{"s":"A","o":"B"}'']
     = [JObj [(lit ''s'', JStr (lit ''A'')), (lit ''o'', JStr (lit ''B''))]]\<close>
    by (simp add: eval_defs)
  have k: \<open>mangled int_to_string (JObj [(lit ''s'', JStr (lit ''A'')), (lit ''o'', JStr (lit ''B''))])
      \<noteq> Inr (lit ''undefined::undefined'')\<close>
    by (simp add: eval_defs)
  have d1: \<open>diagnostics sample_parse int_to_string [lit ''{"s":"A","o":"B"}''] = []\<close>
    by (simp add: eval_defs)
  have d2: \<open>diagnostics sample_parse int_to_string [lit ''{"s":"C","o":"D"}''] = []\<close>
    by (simp add: eval_defs)
  have msg: "lit ''Error parsing line as JSON: '' @ lit ''null'' =
      lit ''Error parsing line as JSON: null''"
    by (simp add: lit_def)
  from null_and_non_object_lines [of "lit ''null''" sample_parse int_to_string
      \<open>[lit ''{"s":"A","o":"B"}'']\<close> \<open>[lit ''{"s":"C","o":"D"}'']\<close>
      "lit ''[1,2]''" "JArr [JNum 1, JNum 2]" \<open>[lit ''{"s":"A","o":"B"}'']\<close>]
    n1 n2 a1 a2 without before k d1 d2 msg
  show ?thesis by simp
qed

lemma prefix_filter_take1: "prefix (filter Q (take 1 ys)) (take 1 (filter Q ys))"
  by (cases ys) auto

lemma lacks_both_valid_key:
  assumes "p \<in> set (valid_records parse ns rl)" and "lacks_both (snd p)"
  shows "fst p = lit ''undefined::undefined''"
proof -
  have "mangled ns (snd p) = Inr (fst p)"
    using assms(1) by (rule valid_records_key)
  moreover have "mangled ns (snd p) = Inr (lit ''undefined::undefined'')"
    using assms(2) by (rule lacks_both_key)
  ultimately show ?thesis by simp
qed

lemma lacks_both_valid:
  "filter lacks_both (map snd (valid_records parse ns rl)) =
     map snd (filter (\<lambda>p. lacks_both (snd p))
       (filter (\<lambda>p. fst p = lit ''undefined::undefined'') (valid_records parse ns rl)))"
proof -
  have "filter (\<lambda>p. lacks_both (snd p)) (valid_records parse ns rl) =
      filter (\<lambda>p. fst p = lit ''undefined::undefined'' \<and> lacks_both (snd p))
        (valid_records parse ns rl)"
    by (rule filter_cong) (use lacks_both_valid_key in blast)+
  then show ?thesis
    by (simp add: filter_map comp_def conj_commute)
qed

lemma lacks_both_output:
  "filter lacks_both (readJsonFileLineByLine parse ns rl) =
     map snd (filter (\<lambda>p. lacks_both (snd p))
       (take 1 (filter (\<lambda>p. fst p = lit ''undefined::undefined'') (valid_records parse ns rl))))"
proof -
  let ?fo = "first_occurrences (valid_records parse ns rl)"
  have "filter (\<lambda>p. lacks_both (snd p)) ?fo =
      filter (\<lambda>p. fst p = lit ''undefined::undefined'' \<and> lacks_both (snd p)) ?fo"
    by (rule filter_cong) (use lacks_both_valid_key set_first_occurrences in blast)+
  also have "\<dots> = filter (\<lambda>p. lacks_both (snd p))
      (filter (\<lambda>p. fst p = lit ''undefined::undefined'') ?fo)"
    by (simp add: conj_commute)
  finally show ?thesis
    by (simp add: readJsonFileLineByLine_def jsonObjects_run filter_map comp_def
        filter_key_first_occurrences)
qed

lemma lacks_both_prefix:
  "prefix (filter lacks_both (readJsonFileLineByLine parse ns rl))
     (take 1 (filter lacks_both (map snd (valid_records parse ns rl))))"
  unfolding lacks_both_output lacks_both_valid take_map
  by (rule map_mono_prefix) (rule prefix_filter_take1)

lemma key_filter_valid:
  "filter (\<lambda>x. mangled ns x = Inr k) (map snd (valid_records parse ns rl)) =
     map snd (filter (\<lambda>p. fst p = k) (valid_records parse ns rl))"
  unfolding filter_map comp_def
  by (rule arg_cong [where f = "map snd"], rule filter_cong)
    (use valid_records_key in fastforce)+

lemma first_with_key:
  "filter (\<lambda>x. mangled ns x = Inr k) (readJsonFileLineByLine parse ns rl) =
     take 1 (filter (\<lambda>x. mangled ns x = Inr k) (map snd (valid_records parse ns rl)))"
  by (simp only: filter_output key_filter_valid take_map)

lemma lacks_both_first_unless_earlier:
  assumes "\<forall>p \<in> set (takeWhile (\<lambda>p. \<not> lacks_both (snd p)) (valid_records parse ns rl)).
      fst p \<noteq> lit ''undefined::undefined''"
  shows "filter lacks_both (readJsonFileLineByLine parse ns rl) =
     take 1 (filter lacks_both (map snd (valid_records parse ns rl)))"
proof -
  let ?vr = "valid_records parse ns rl"
  let ?K = "lit ''undefined::undefined''"
  let ?pre = "takeWhile (\<lambda>p. \<not> lacks_both (snd p)) ?vr"
  let ?post = "dropWhile (\<lambda>p. \<not> lacks_both (snd p)) ?vr"
  have split: "?pre @ ?post = ?vr"
    by (rule takeWhile_dropWhile_id)
  have pre_key: "filter (\<lambda>p. fst p = ?K) ?pre = []"
    using assms by (auto simp: filter_empty_conv)
  have pre_lacks: "filter (\<lambda>p. lacks_both (snd p)) ?pre = []"
    by (auto simp: filter_empty_conv dest: set_takeWhileD)
  show ?thesis
  proof (cases ?post)
    case Nil
    with split have eq: "?pre = ?vr"
      by (simp only: append_Nil2)
    have k: "filter (\<lambda>p. fst p = ?K) ?vr = []"
      using pre_key by (simp only: eq)
    show ?thesis
      unfolding lacks_both_output lacks_both_valid k by simp
  next
    case (Cons x post)
    then have "x = hd ?post" and ne: "?post \<noteq> []"
      by simp_all
    then have lx: "lacks_both (snd x)"
      using hd_dropWhile [OF ne] by simp
    have vr: "?vr = ?pre @ x # post"
      using split by (simp only: Cons)
    have "x \<in> set ?vr"
      by (subst vr) simp
    then have kx: "fst x = ?K"
      using lx by (rule lacks_both_valid_key)
    have k: "filter (\<lambda>p. fst p = ?K) ?vr = x # filter (\<lambda>p. fst p = ?K) post"
      by (subst vr) (simp add: pre_key kx)
    show ?thesis
      unfolding lacks_both_output lacks_both_valid k
      by (simp add: lx)
  qed
qed

lemma run_same_key:
  assumes "line_record parse ns l1 = Some (k, r1)" and "line_record parse ns l2 = Some (k, r2)"
  shows "run parse ns (xs @ l1 # ys @ l2 # zs) = run parse ns (xs @ l1 # ys @ zs)"
proof -
  have "k \<in> fst ` set (valid_records parse ns (xs @ l1 # ys))"
    using assms(1) by (simp add: valid_records_append valid_records_Cons)
  with assms(2) have "run parse ns ((xs @ l1 # ys) @ l2 # zs) = run parse ns ((xs @ l1 # ys) @ zs)"
    by (rule run_duplicate)
  then show ?thesis by simp
qed

text \<open>
  Claim C10, as the code has it. A missing \<open>s\<close> or \<open>o\<close> field contributes \<open>undefined\<close>
  to the key, so every record lacking both fields has the key \<open>undefined::undefined\<close>.
  Of all the records with that key only the first is returned, so the returned
  sequence holds at most one record lacking both fields, the first of them; it is
  returned when no earlier record has produced that key (a record whose fields are
  the strings \<open>undefined\<close> produces it too). A record with the number 1 as \<open>s\<close> and a
  record with the string \<open>1\<close> as \<open>s\<close>, with equal \<open>o\<close> fields, have equal keys (or
  the same error), and of two lines decoding to them the later one adds nothing to
  the result.
\<close>

theorem string_coercion_of_key_fields:
  "(get_prop obj1 (lit ''s'') = Inr None \<and> get_prop obj1 (lit ''o'') = Inr q \<and>
      to_str_undef ns q = Inr b \<longrightarrow>
      mangled ns obj1 = Inr (lit ''undefined'' @ lit ''::'' @ b)) \<and>
   (get_prop obj2 (lit ''s'') = Inr p \<and> to_str_undef ns p = Inr a \<and>
      get_prop obj2 (lit ''o'') = Inr None \<longrightarrow>
      mangled ns obj2 = Inr (a @ lit ''::'' @ lit ''undefined'')) \<and>
   (lacks_both obj \<longrightarrow> mangled ns obj = Inr (lit ''undefined::undefined'')) \<and>
   filter (\<lambda>x. mangled ns x = Inr (lit ''undefined::undefined''))
       (readJsonFileLineByLine parse ns rl) =
     take 1 (filter (\<lambda>x. mangled ns x = Inr (lit ''undefined::undefined''))
       (map snd (valid_records parse ns rl))) \<and>
   prefix (filter lacks_both (readJsonFileLineByLine parse ns rl))
     (take 1 (filter lacks_both (map snd (valid_records parse ns rl)))) \<and>
   ((\<forall>p \<in> set (takeWhile (\<lambda>p. \<not> lacks_both (snd p)) (valid_records parse ns rl)).
        fst p \<noteq> lit ''undefined::undefined'') \<longrightarrow>
      filter lacks_both (readJsonFileLineByLine parse ns rl) =
      take 1 (filter lacks_both (map snd (valid_records parse ns rl)))) \<and>
   (ns n = lit ''1'' \<and> map_of kvs1 (lit ''s'') = Some (JNum n) \<and>
      map_of kvs2 (lit ''s'') = Some (JStr (lit ''1'')) \<and>
      map_of kvs1 (lit ''o'') = map_of kvs2 (lit ''o'') \<longrightarrow>
      mangled ns (JObj kvs1) = mangled ns (JObj kvs2) \<and>
      (\<forall>k. mangled ns (JObj kvs1) = Inr k \<and>
           trim l1 \<noteq> [] \<and> parse l1 = Some (JObj kvs1) \<and>
           trim l2 \<noteq> [] \<and> parse l2 = Some (JObj kvs2) \<longrightarrow>
           readJsonFileLineByLine parse ns (xs @ l1 # ys @ l2 # zs) =
             readJsonFileLineByLine parse ns (xs @ l1 # ys @ zs) \<and>
           readJsonFileLineByLine parse ns (xs @ l2 # ys @ l1 # zs) =
             readJsonFileLineByLine parse ns (xs @ l2 # ys @ zs)))"
proof (intro conjI impI allI)
  assume "get_prop obj1 (lit ''s'') = Inr None \<and> get_prop obj1 (lit ''o'') = Inr q \<and>
      to_str_undef ns q = Inr b"
  then show "mangled ns obj1 = Inr (lit ''undefined'' @ lit ''::'' @ b)"
    by (simp add: mangled_def to_str_undef_def)
next
  assume "get_prop obj2 (lit ''s'') = Inr p \<and> to_str_undef ns p = Inr a \<and>
      get_prop obj2 (lit ''o'') = Inr None"
  then show "mangled ns obj2 = Inr (a @ lit ''::'' @ lit ''undefined'')"
    by (simp add: mangled_def to_str_undef_def)
next
  assume "lacks_both obj"
  then show "mangled ns obj = Inr (lit ''undefined::undefined'')"
    by (rule lacks_both_key)
next
  show "filter (\<lambda>x. mangled ns x = Inr (lit ''undefined::undefined''))
       (readJsonFileLineByLine parse ns rl) =
     take 1 (filter (\<lambda>x. mangled ns x = Inr (lit ''undefined::undefined''))
       (map snd (valid_records parse ns rl)))"
    by (rule first_with_key)
next
  show "prefix (filter lacks_both (readJsonFileLineByLine parse ns rl))
     (take 1 (filter lacks_both (map snd (valid_records parse ns rl))))"
    by (rule lacks_both_prefix)
next
  assume "\<forall>p \<in> set (takeWhile (\<lambda>p. \<not> lacks_both (snd p)) (valid_records parse ns rl)).
        fst p \<noteq> lit ''undefined::undefined''"
  then show "filter lacks_both (readJsonFileLineByLine parse ns rl) =
      take 1 (filter lacks_both (map snd (valid_records parse ns rl)))"
    by (rule lacks_both_first_unless_earlier)
next
  assume a: "ns n = lit ''1'' \<and> map_of kvs1 (lit ''s'') = Some (JNum n) \<and>
      map_of kvs2 (lit ''s'') = Some (JStr (lit ''1'')) \<and>
      map_of kvs1 (lit ''o'') = map_of kvs2 (lit ''o'')"
  then show eq: "mangled ns (JObj kvs1) = mangled ns (JObj kvs2)"
    by (simp add: mangled_def to_str_undef_def)
  fix k
  assume b: "mangled ns (JObj kvs1) = Inr k \<and>
           trim l1 \<noteq> [] \<and> parse l1 = Some (JObj kvs1) \<and>
           trim l2 \<noteq> [] \<and> parse l2 = Some (JObj kvs2)"
  then have r1: "line_record parse ns l1 = Some (k, JObj kvs1)"
    by (simp add: line_record_def)
  from b eq have r2: "line_record parse ns l2 = Some (k, JObj kvs2)"
    by (simp add: line_record_def)
  show "readJsonFileLineByLine parse ns (xs @ l1 # ys @ l2 # zs) =
             readJsonFileLineByLine parse ns (xs @ l1 # ys @ zs)"
    by (simp add: readJsonFileLineByLine_def run_same_key [OF r1 r2])
  show "readJsonFileLineByLine parse ns (xs @ l2 # ys @ l1 # zs) =
             readJsonFileLineByLine parse ns (xs @ l2 # ys @ zs)"
    by (simp add: readJsonFileLineByLine_def run_same_key [OF r2 r1])
qed

theorem string_coercion_of_key_fields_witness:
  \<open>mangled int_to_string (JObj [(lit ''o'', JStr (lit ''B''))]) = Inr (lit ''undefined::B'') \<and>
   mangled int_to_string (JObj [(lit ''s'', JStr (lit ''A''))]) = Inr (lit ''A::undefined'') \<and>
   lacks_both (JObj [(lit ''w'', JNum (2::int))]) \<and>
   mangled int_to_string (JObj [(lit ''w'', JNum 2)]) = Inr (lit ''undefined::undefined'') \<and>
   readJsonFileLineByLine sample_parse int_to_string
       [lit ''{"s":"A","o":"B"}'', lit ''{"w":2}'', lit ''{}'', lit ''7'']
     = [JObj [(lit ''s'', JStr (lit ''A'')), (lit ''o'', JStr (lit ''B''))],
        JObj [(lit ''w'', JNum 2)]] \<and>
   filter lacks_both (readJsonFileLineByLine sample_parse int_to_string
       [lit ''{"s":"A","o":"B"}'', lit ''{"w":2}'', lit ''{}'', lit ''7''])
     = take 1 (filter lacks_both (map snd (valid_records sample_parse int_to_string
         [lit ''{"s":"A","o":"B"}'', lit ''{"w":2}'', lit ''{}'', lit ''7'']))) \<and>
   int_to_string 1 = lit ''1'' \<and>
   mangled int_to_string (JObj [(lit ''s'', JNum 1), (lit ''o'', JStr (lit ''B''))])
     = Inr (lit ''1::B'') \<and>
   mangled int_to_string (JObj [(lit ''s'', JStr (lit ''1'')), (lit ''o'', JStr (lit ''B''))])
     = Inr (lit ''1::B'') \<and>
   readJsonFileLineByLine sample_parse int_to_string
       ([] @ lit ''{"s":1,"o":"B"}'' # [lit ''{"s":"A","o":"B"}''] @ lit ''{"s":"1","o":"B"}'' # [])
     = [JObj [(lit ''s'', JNum 1), (lit ''o'', JStr (lit ''B''))],
        JObj [(lit ''s'', JStr (lit ''A'')), (lit ''o'', JStr (lit ''B''))]] \<and>
   readJsonFileLineByLine sample_parse int_to_string
       ([] @ lit ''{"s":"1","o":"B"}'' # [lit ''{"s":"A","o":"B"}''] @ lit ''{"s":1,"o":"B"}'' # [])
     = [JObj [(lit ''s'', JStr (lit ''1'')), (lit ''o'', JStr (lit ''B''))],
        JObj [(lit ''s'', JStr (lit ''A'')), (lit ''o'', JStr (lit ''B''))]]\<close>
proof -
  let ?no_s = "JObj [(lit ''o'', JStr (lit ''B'') :: int json)]"
  let ?no_o = "JObj [(lit ''s'', JStr (lit ''A'') :: int json)]"
  let ?none = "JObj [(lit ''w'', JNum (2::int))]"
  let ?kvs1 = "[(lit ''s'', JNum (1::int)), (lit ''o'', JStr (lit ''B''))]"
  let ?kvs2 = "[(lit ''s'', JStr (lit ''1'')), (lit ''o'', JStr (lit ''B'') :: int json)]"
  let ?l1 = \<open>lit ''{"s":1,"o":"B"}''\<close>
  let ?l2 = \<open>lit ''{"s":"1","o":"B"}''\<close>
  let ?rl = \<open>[lit ''{"s":"A","o":"B"}'', lit ''{"w":2}'', lit ''{}'', lit ''7'']\<close>
  have h1: "get_prop ?no_s (lit ''s'') = Inr None \<and>
      get_prop ?no_s (lit ''o'') = Inr (Some (JStr (lit ''B''))) \<and>
      to_str_undef int_to_string (Some (JStr (lit ''B''))) = Inr (lit ''B'')"
    by (simp add: to_str_undef_def lit_def)
  have h2: "get_prop ?no_o (lit ''s'') = Inr (Some (JStr (lit ''A''))) \<and>
      to_str_undef int_to_string (Some (JStr (lit ''A''))) = Inr (lit ''A'') \<and>
      get_prop ?no_o (lit ''o'') = Inr None"
    by (simp add: to_str_undef_def lit_def)
  have h3: "lacks_both ?none"
    by (simp add: lacks_both_def lit_def)
  have k1: "lit ''undefined'' @ lit ''::'' @ lit ''B'' = lit ''undefined::B''"
    and k2: "lit ''A'' @ lit ''::'' @ lit ''undefined'' = lit ''A::undefined''"
    by (simp_all add: lit_def)
  have vr: \<open>valid_records sample_parse int_to_string ?rl =
      [(lit ''A::B'', JObj [(lit ''s'', JStr (lit ''A'')), (lit ''o'', JStr (lit ''B''))]),
       (lit ''undefined::undefined'', JObj [(lit ''w'', JNum 2)]),
       (lit ''undefined::undefined'', JObj []),
       (lit ''undefined::undefined'', JNum 7)]\<close>
    by (simp add: eval_defs)
  have h5: "\<forall>p \<in> set (takeWhile (\<lambda>p. \<not> lacks_both (snd p))
        (valid_records sample_parse int_to_string ?rl)). fst p \<noteq> lit ''undefined::undefined''"
    unfolding vr by (simp add: lacks_both_def lit_def)
  have out: \<open>readJsonFileLineByLine sample_parse int_to_string ?rl
     = [JObj [(lit ''s'', JStr (lit ''A'')), (lit ''o'', JStr (lit ''B''))],
        JObj [(lit ''w'', JNum 2)]]\<close>
    by (simp add: eval_defs)
  have n: "int_to_string 1 = lit ''1''"
    by (simp add: int_to_string_def decimal_nat.simps lit_def)
  have h6: "int_to_string 1 = lit ''1'' \<and> map_of ?kvs1 (lit ''s'') = Some (JNum 1) \<and>
      map_of ?kvs2 (lit ''s'') = Some (JStr (lit ''1'')) \<and>
      map_of ?kvs1 (lit ''o'') = map_of ?kvs2 (lit ''o'')"
    using n by (simp add: lit_def)
  have m1: "mangled int_to_string (JObj ?kvs1) = Inr (lit ''1::B'')"
    using n by (simp add: mangled_def to_str_undef_def lit_def)
  have h7: "mangled int_to_string (JObj ?kvs1) = Inr (lit ''1::B'') \<and>
      trim ?l1 \<noteq> [] \<and> sample_parse ?l1 = Some (JObj ?kvs1) \<and>
      trim ?l2 \<noteq> [] \<and> sample_parse ?l2 = Some (JObj ?kvs2)"
    using m1 by (simp add: sample_parse_def sample_lines_def lit_def trim_def is_white_space_def)
  have r1: \<open>readJsonFileLineByLine sample_parse int_to_string
       ([] @ ?l1 # [lit ''{"s":"A","o":"B"}''] @ [])
     = [JObj ?kvs1, JObj [(lit ''s'', JStr (lit ''A'')), (lit ''o'', JStr (lit ''B''))]]\<close>
    using n by (simp add: eval_defs)
  have r2: \<open>readJsonFileLineByLine sample_parse int_to_string
       ([] @ ?l2 # [lit ''{"s":"A","o":"B"}''] @ [])
     = [JObj ?kvs2, JObj [(lit ''s'', JStr (lit ''A'')), (lit ''o'', JStr (lit ''B''))]]\<close>
    by (simp add: eval_defs)
  note inst = string_coercion_of_key_fields [of ?no_s "Some (JStr (lit ''B''))" int_to_string
      "lit ''B''" ?no_o "Some (JStr (lit ''A''))" "lit ''A''" ?none sample_parse ?rl 1
      ?kvs1 ?kvs2 ?l1 ?l2 "[]" \<open>[lit ''{"s":"A","o":"B"}'']\<close> "[]"]
  from inst h1 k1 have c1: "mangled int_to_string ?no_s = Inr (lit ''undefined::B'')"
    by simp
  from inst h2 k2 have c2: "mangled int_to_string ?no_o = Inr (lit ''A::undefined'')"
    by simp
  from inst h3 have c3: "mangled int_to_string ?none = Inr (lit ''undefined::undefined'')"
    by blast
  from inst h5 have c5: "filter lacks_both (readJsonFileLineByLine sample_parse int_to_string ?rl)
      = take 1 (filter lacks_both (map snd (valid_records sample_parse int_to_string ?rl)))"
    by blast
  from inst h6 have c6: "mangled int_to_string (JObj ?kvs1) = mangled int_to_string (JObj ?kvs2)"
    by blast
  from inst h6 h7 have c7: \<open>readJsonFileLineByLine sample_parse int_to_string
        ([] @ ?l1 # [lit ''{"s":"A","o":"B"}''] @ ?l2 # []) =
      readJsonFileLineByLine sample_parse int_to_string ([] @ ?l1 # [lit ''{"s":"A","o":"B"}''] @ [])\<close>
    and c8: \<open>readJsonFileLineByLine sample_parse int_to_string
        ([] @ ?l2 # [lit ''{"s":"A","o":"B"}''] @ ?l1 # []) =
      readJsonFileLineByLine sample_parse int_to_string ([] @ ?l2 # [lit ''{"s":"A","o":"B"}''] @ [])\<close>
    by blast+
  show ?thesis
    using c1 c2 h3 c3 out c5 n m1 c6 c7 c8 r1 r2 by (simp only: simp_thms)
qed

text \<open>
  The claim as written, that the first record lacking both fields is the one returned,
  fails when an earlier record spells the key out: the first line below has both
  fields, the second is the first record lacking them, and it is not returned.
\<close>

theorem first_lacking_both_not_returned:
  \<open>valid_records sample_parse int_to_string
       [lit ''{"s":"undefined","o":"undefined"}'', lit ''{}'']
     = [(lit ''undefined::undefined'',
          JObj [(lit ''s'', JStr (lit ''undefined'')), (lit ''o'', JStr (lit ''undefined''))]),
        (lit ''undefined::undefined'', JObj [])] \<and>
   \<not> lacks_both (JObj [(lit ''s'', JStr (lit ''undefined'')),
                        (lit ''o'', JStr (lit ''undefined'') :: int json)]) \<and>
   lacks_both (JObj [] :: int json) \<and>
   readJsonFileLineByLine sample_parse int_to_string
       [lit ''{"s":"undefined","o":"undefined"}'', lit ''{}'']
     = [JObj [(lit ''s'', JStr (lit ''undefined'')), (lit ''o'', JStr (lit ''undefined''))]]\<close>
  by (simp add: eval_defs)

lemma CR_neq_LF: "CR \<noteq> LF"
  by (simp add: CR_def LF_def)

lemma split_lines_LF:
  "LF \<notin> set l \<Longrightarrow> CR \<notin> set l \<Longrightarrow>
   split_lines cur (l @ LF # text) = (cur @ l) # split_lines [] text"
  by (induction l arbitrary: cur) auto

lemma split_lines_CRLF:
  "LF \<notin> set l \<Longrightarrow> CR \<notin> set l \<Longrightarrow>
   split_lines cur (l @ CR # LF # text) = (cur @ l) # split_lines [] text"
  by (induction l arbitrary: cur) (auto simp: CR_neq_LF)

lemma split_lines_unterminated:
  "LF \<notin> set l \<Longrightarrow> CR \<notin> set l \<Longrightarrow>
   split_lines cur l = (if cur @ l = [] then [] else [cur @ l])"
  by (induction l arbitrary: cur) auto

lemma createInterface_LF:
  assumes "\<forall>l \<in> set ls. LF \<notin> set l \<and> CR \<notin> set l" and "LF \<notin> set u" and "CR \<notin> set u"
  shows "createInterface (terminate_lines [LF] ls @ u) = ls @ (if u = [] then [] else [u])"
  using assms(1)
proof (induction ls)
  case Nil
  show ?case
    using split_lines_unterminated [OF assms(2,3), of "[]"]
    by (simp add: createInterface_def terminate_lines_def)
next
  case (Cons l ls)
  then have "split_lines [] (l @ LF # terminate_lines [LF] ls @ u) =
      l # split_lines [] (terminate_lines [LF] ls @ u)"
    using split_lines_LF [of l "[]"] by simp
  with Cons show ?case
    by (simp add: createInterface_def terminate_lines_def)
qed

lemma createInterface_CRLF:
  assumes "\<forall>l \<in> set ls. LF \<notin> set l \<and> CR \<notin> set l" and "LF \<notin> set u" and "CR \<notin> set u"
  shows "createInterface (terminate_lines [CR, LF] ls @ u) = ls @ (if u = [] then [] else [u])"
  using assms(1)
proof (induction ls)
  case Nil
  show ?case
    using split_lines_unterminated [OF assms(2,3), of "[]"]
    by (simp add: createInterface_def terminate_lines_def)
next
  case (Cons l ls)
  then have "split_lines [] (l @ CR # LF # terminate_lines [CR, LF] ls @ u) =
      l # split_lines [] (terminate_lines [CR, LF] ls @ u)"
    using split_lines_CRLF [of l "[]"] by simp
  with Cons show ?case
    by (simp add: createInterface_def terminate_lines_def)
qed

subsection \<open>Line terminators\<close>

text \<open>
  Claim C7. For lines that contain neither a line feed nor a carriage return, the text
  that ends each line with CR LF is split into the same lines as the text that ends
  each line with LF (a last line may be left unterminated), so the reader returns the
  same sequence for both texts.
\<close>

theorem lf_crlf_equivalence:
  "(\<forall>l \<in> set ls. LF \<notin> set l \<and> CR \<notin> set l) \<and> LF \<notin> set u \<and> CR \<notin> set u \<Longrightarrow>
   createInterface (terminate_lines [LF] ls @ u) = ls @ (if u = [] then [] else [u]) \<and>
   createInterface (terminate_lines [CR, LF] ls @ u) =
     createInterface (terminate_lines [LF] ls @ u) \<and>
   readJsonFileLineByLine parse ns (createInterface (terminate_lines [CR, LF] ls @ u)) =
     readJsonFileLineByLine parse ns (createInterface (terminate_lines [LF] ls @ u))"
  by (simp add: createInterface_LF createInterface_CRLF)

theorem lf_crlf_equivalence_witness:
  \<open>list_all (\<lambda>l. LF \<notin> set l \<and> CR \<notin> set l)
     [lit ''{"s":"A","o":"B"}'', lit ''not json'', lit ''{"s":"C","o":"D"}''] \<and>
   LF \<notin> set (lit ''{}'') \<and> CR \<notin> set (lit ''{}'') \<and>
   createInterface (terminate_lines [CR, LF]
       [lit ''{"s":"A","o":"B"}'', lit ''not json'', lit ''{"s":"C","o":"D"}''] @ lit ''{}'')
     = [lit ''{"s":"A","o":"B"}'', lit ''not json'', lit ''{"s":"C","o":"D"}'', lit ''{}''] \<and>
   readJsonFileLineByLine sample_parse int_to_string
       (createInterface (terminate_lines [CR, LF]
          [lit ''{"s":"A","o":"B"}'', lit ''not json'', lit ''{"s":"C","o":"D"}''] @ lit ''{}''))
     = readJsonFileLineByLine sample_parse int_to_string
       (createInterface (terminate_lines [LF]
          [lit ''{"s":"A","o":"B"}'', lit ''not json'', lit ''{"s":"C","o":"D"}''] @ lit ''{}''))\<close>
proof -
  let ?ls = \<open>[lit ''{"s":"A","o":"B"}'', lit ''not json'', lit ''{"s":"C","o":"D"}'']\<close>
  have h: "(\<forall>l \<in> set ?ls. LF \<notin> set l \<and> CR \<notin> set l) \<and>
      LF \<notin> set (lit ''{}'') \<and> CR \<notin> set (lit ''{}'')"
    by (simp add: lit_def LF_def CR_def)
  have ne: "lit ''{}'' \<noteq> []"
    by (simp add: lit_def)
  from lf_crlf_equivalence [OF h, of sample_parse int_to_string] h ne
  show ?thesis by (simp add: list_all_iff)
qed

end
